theory Spec2Isabelle
  imports Complex_Main
begin

section \<open>Python values used by the lecture services\<close>

subsection \<open>Strings\<close>

text \<open>
  A Python \<open>str\<close> is modelled as a \<open>string\<close> whose characters are the code points
  0..255.  In that range the only characters matched by the regular expression class
  \<open>\d\<close> are the ASCII digits, and the characters removed by \<open>str.strip()\<close> are the ones
  listed in \<open>is_space\<close>.
\<close>

definition is_digit :: "char \<Rightarrow> bool" where
  "is_digit c = (c \<in> set ''0123456789'')"

definition is_space :: "char \<Rightarrow> bool" where
  "is_space c = ((of_char c :: nat) \<in> set [9, 10, 11, 12, 13, 28, 29, 30, 31, 32, 133, 160])"

definition strip :: "string \<Rightarrow> string" where
  "strip s = rev (dropWhile is_space (rev (dropWhile is_space s)))"

text \<open>\<open>s.split(sep)\<close> for a one-character separator: always at least one piece.\<close>

fun split_char :: "char \<Rightarrow> string \<Rightarrow> string list" where
  "split_char sep [] = [[]]"
| "split_char sep (c # cs) =
     (if c = sep then [] # split_char sep cs
      else (case split_char sep cs of
              w # ws \<Rightarrow> (c # w) # ws
            | [] \<Rightarrow> [[c]]))"

text \<open>\<open>sep.join(parts)\<close>.\<close>

fun join :: "string \<Rightarrow> string list \<Rightarrow> string" where
  "join sep [] = []"
| "join sep [x] = x"
| "join sep (x # y # ys) = x @ sep @ join sep (y # ys)"

text \<open>\<open>sub in s\<close>: substring containment.\<close>

fun contains :: "string \<Rightarrow> string \<Rightarrow> bool" where
  "contains [] sub = (sub = [])"
| "contains (c # cs) sub = (take (length sub) (c # cs) = sub \<or> contains cs sub)"

text \<open>\<open>s[i:j]\<close> for \<open>0 \<le> i \<le> j\<close>.\<close>

definition slice :: "'a list \<Rightarrow> nat \<Rightarrow> nat \<Rightarrow> 'a list" where
  "slice s i j = take (j - i) (drop i s)"

text \<open>Decimal rendering of a natural number, as \<open>str(n)\<close> does.\<close>

definition digit_char :: "nat \<Rightarrow> char" where
  "digit_char d = char_of (48 + d)"

fun str_nat :: "nat \<Rightarrow> string" where
  "str_nat n = (if n < 10 then [digit_char n] else str_nat (n div 10) @ [digit_char (n mod 10)])"

declare str_nat.simps [simp del]

definition str_int :: "int \<Rightarrow> string" where
  "str_int i = (if i < 0 then CHR ''-'' # str_nat (nat (- i)) else str_nat (nat i))"

text \<open>The format specification \<open>{i:02d}\<close>: at least two characters, zero padded;
  the sign of a negative number counts as one of them.\<close>

definition format_02d :: "int \<Rightarrow> string" where
  "format_02d i = (if 0 \<le> i \<and> i < 10 then CHR ''0'' # str_int i else str_int i)"

subsection \<open>Exceptions\<close>

text \<open>An exception is kept with the text \<open>str(e)\<close> gives for it.\<close>

datatype py_error = ValueError string | IndexError string | BackendError string

fun str_error :: "py_error \<Rightarrow> string" where
  "str_error (ValueError m) = m"
| "str_error (IndexError m) = m"
| "str_error (BackendError m) = m"

text \<open>Sequencing of computations that may raise.\<close>

definition bind_err :: "py_error + 'a \<Rightarrow> ('a \<Rightarrow> py_error + 'b) \<Rightarrow> py_error + 'b" where
  "bind_err r f = (case r of Inl e \<Rightarrow> Inl e | Inr v \<Rightarrow> f v)"

definition list_get :: "'a list \<Rightarrow> nat \<Rightarrow> py_error + 'a" where
  "list_get xs i = (if i < length xs then Inr (xs ! i) else Inl (IndexError ''list index out of range''))"

definition digit_val :: "char \<Rightarrow> nat" where
  "digit_val c = of_char c - 48"

fun digits_value :: "nat \<Rightarrow> string \<Rightarrow> nat" where
  "digits_value acc [] = acc"
| "digits_value acc (c # cs) = digits_value (10 * acc + digit_val c) cs"

text \<open>
  \<open>int(s)\<close> on a string.  The strings that reach it here consist of decimal digits; every
  other string is reported as the \<open>ValueError\<close> that \<open>int\<close> raises for a string that is no
  number (signs, surrounding blanks and underscores are not interpreted, and the offending
  string is quoted without escapes).
\<close>

definition py_int :: "string \<Rightarrow> py_error + int" where
  "py_int s =
     (if s \<noteq> [] \<and> list_all is_digit s then Inr (int (digits_value 0 s))
      else Inl (ValueError (''invalid literal for int() with base 10: '' @ [CHR 0x27] @ s @ [CHR 0x27])))"

subsection \<open>Floating point\<close>

text \<open>
  A Python \<open>float\<close> is an IEEE 754 binary64 number.  A finite one is modelled by the
  rational number it denotes (the sign of zero is not kept), and every arithmetic operation
  is the exact operation followed by rounding to the nearest binary64 number, ties to even:
  53 significant bits, with the fixed spacing \<open>2 ^ -1074\<close> in the subnormal range.  Results
  of magnitude \<open>2 ^ 1024\<close> or more (infinities in IEEE) do not occur in this development.
\<close>

type_synonym pyfloat = rat

fun bit_length :: "nat \<Rightarrow> nat" where
  "bit_length n = (if n = 0 then 0 else Suc (bit_length (n div 2)))"

declare bit_length.simps [simp del]

definition pow2 :: "int \<Rightarrow> rat" where
  "pow2 k = (if 0 \<le> k then 2 ^ nat k else 1 / 2 ^ nat (- k))"

text \<open>For \<open>q > 0\<close>, the integer \<open>e\<close> with \<open>2 ^ e \<le> q < 2 ^ (e + 1)\<close>.\<close>

definition binary_exponent :: "rat \<Rightarrow> int" where
  "binary_exponent q =
     (if 1 \<le> q then int (bit_length (nat \<lfloor>q\<rfloor>)) - 1
      else - int (bit_length (nat (\<lceil>1 / q\<rceil> - 1))))"

definition ulp_exponent :: "rat \<Rightarrow> int" where
  "ulp_exponent q = max (binary_exponent q - 52) (- 1074)"

definition round_half_even :: "rat \<Rightarrow> int" where
  "round_half_even x =
     (let f = \<lfloor>x\<rfloor>; r = x - of_int f
      in if r < 1 / 2 then f
         else if 1 / 2 < r then f + 1
         else if even f then f else f + 1)"

definition fl_pos :: "rat \<Rightarrow> rat" where
  "fl_pos q = of_int (round_half_even (q / pow2 (ulp_exponent q))) * pow2 (ulp_exponent q)"

definition fl :: "rat \<Rightarrow> pyfloat" where
  "fl q = (if q = 0 then 0 else if 0 < q then fl_pos q else - fl_pos (- q))"

definition float_of_int :: "int \<Rightarrow> pyfloat" where
  "float_of_int i = fl (of_int i)"

text \<open>\<open>a / b\<close> on two ints (true division, \<open>b \<noteq> 0\<close>): the correctly rounded quotient.\<close>

definition int_truediv :: "int \<Rightarrow> int \<Rightarrow> pyfloat" where
  "int_truediv a b = fl (of_int a / of_int b)"

definition float_add :: "pyfloat \<Rightarrow> pyfloat \<Rightarrow> pyfloat" where
  "float_add x y = fl (x + y)"

definition float_sub :: "pyfloat \<Rightarrow> pyfloat \<Rightarrow> pyfloat" where
  "float_sub x y = fl (x - y)"

definition float_mul :: "pyfloat \<Rightarrow> pyfloat \<Rightarrow> pyfloat" where
  "float_mul x y = fl (x * y)"

definition float_truediv :: "pyfloat \<Rightarrow> pyfloat \<Rightarrow> pyfloat" where
  "float_truediv x y = fl (x / y)"

text \<open>\<open>int(x)\<close> on a float: truncation towards zero.\<close>

definition int_of_float :: "pyfloat \<Rightarrow> int" where
  "int_of_float x = (if 0 \<le> x then \<lfloor>x\<rfloor> else \<lceil>x\<rceil>)"

text \<open>C's \<open>fmod\<close> (exact), and Python's \<open>x % y\<close> and \<open>x // y\<close> on floats as the
  interpreter computes them from it, for \<open>y \<noteq> 0\<close>.\<close>

definition c_fmod :: "pyfloat \<Rightarrow> pyfloat \<Rightarrow> pyfloat" where
  "c_fmod x y = x - y * of_int (int_of_float (x / y))"

definition float_mod :: "pyfloat \<Rightarrow> pyfloat \<Rightarrow> pyfloat" where
  "float_mod x y =
     (let m = c_fmod x y
      in if m \<noteq> 0 \<and> ((y < 0) \<noteq> (m < 0)) then float_add m y else m)"

definition float_floordiv :: "pyfloat \<Rightarrow> pyfloat \<Rightarrow> pyfloat" where
  "float_floordiv x y =
     (let m = c_fmod x y;
          d0 = float_truediv (float_sub x m) y;
          d = (if m \<noteq> 0 \<and> ((y < 0) \<noteq> (m < 0)) then float_sub d0 1 else d0);
          f = of_int \<lfloor>d\<rfloor>
      in if d = 0 then 0
         else if 1 / 2 < float_sub d f then float_add f 1 else f)"

section \<open>Timestamp service\<close>

record TimestampSegment =
  start_time :: pyfloat
  end_time :: pyfloat
  seg_text :: string
  start_str :: string
  end_str :: string

definition time_to_seconds :: "string \<Rightarrow> py_error + pyfloat" where
  "time_to_seconds time_str =
     (let parts = split_char CHR '':'' time_str
      in bind_err (list_get parts 0) (\<lambda>p0.
         bind_err (py_int p0) (\<lambda>hours.
         bind_err (list_get parts 1) (\<lambda>p1.
         bind_err (py_int p1) (\<lambda>minutes.
         bind_err (list_get parts 2) (\<lambda>p2.
         (let seconds_parts = split_char CHR ''.'' p2
          in bind_err (list_get seconds_parts 0) (\<lambda>s0.
             bind_err (py_int s0) (\<lambda>seconds.
             bind_err (if 1 < length seconds_parts
                       then bind_err (list_get seconds_parts 1) py_int
                       else Inr 0) (\<lambda>milliseconds.
             Inr (float_add (float_of_int (hours * 3600 + minutes * 60 + seconds))
                            (int_truediv milliseconds 100))))))))))))"

definition seconds_to_time :: "pyfloat \<Rightarrow> string" where
  "seconds_to_time seconds =
     (let hours = int_of_float (float_floordiv seconds 3600);
          minutes = int_of_float (float_floordiv (float_mod seconds 3600) 60);
          secs = float_mod seconds 60;
          whole_seconds = int_of_float secs;
          milliseconds = int_of_float (float_mul (float_sub secs (float_of_int whole_seconds)) 100)
      in format_02d hours @ '':'' @ format_02d minutes @ '':'' @ format_02d whole_seconds
         @ ''.'' @ format_02d milliseconds)"

definition format_timestamp_for_video :: "pyfloat \<Rightarrow> string" where
  "format_timestamp_for_video seconds =
     (let hours = int_of_float (float_floordiv seconds 3600);
          minutes = int_of_float (float_floordiv (float_mod seconds 3600) 60);
          secs = int_of_float (float_mod seconds 60)
      in if 0 < hours then str_int hours @ ''h'' @ str_int minutes @ ''m'' @ str_int secs @ ''s''
         else if 0 < minutes then str_int minutes @ ''m'' @ str_int secs @ ''s''
         else str_int secs @ ''s'')"

text \<open>The pattern \<open>\d{2}:\d{2}:\d{2}\.\d{2}\<close> against a whole string.\<close>

definition is_time_str :: "string \<Rightarrow> bool" where
  "is_time_str s =
     (length s = 11 \<and> is_digit (s ! 0) \<and> is_digit (s ! 1) \<and> s ! 2 = CHR '':''
      \<and> is_digit (s ! 3) \<and> is_digit (s ! 4) \<and> s ! 5 = CHR '':''
      \<and> is_digit (s ! 6) \<and> is_digit (s ! 7) \<and> s ! 8 = CHR ''.''
      \<and> is_digit (s ! 9) \<and> is_digit (s ! 10))"

text \<open>
  \<open>re.match\<close> of the line pattern: anchored at the start of the line only; the last group
  \<open>(.+)\<close> takes every character up to the first newline and needs at least one.  The
  result is the three groups.
\<close>

definition match_line :: "string \<Rightarrow> (string \<times> string \<times> string) option" where
  "match_line line =
     (let g1 = slice line 1 12; g2 = slice line 15 26;
          g3 = takeWhile (\<lambda>c. c \<noteq> CHR 0x0A) (drop 28 line)
      in if slice line 0 1 = ''['' \<and> is_time_str g1 \<and> slice line 12 15 = '' - ''
            \<and> is_time_str g2 \<and> slice line 26 28 = ''] '' \<and> g3 \<noteq> []
         then Some (g1, g2, g3) else None)"

text \<open>The loop body of the parser on one line, and the loop over the lines.\<close>

definition parse_line :: "string \<Rightarrow> py_error + TimestampSegment option" where
  "parse_line line =
     (case match_line line of
        None \<Rightarrow> Inr None
      | Some (s_str, e_str, txt) \<Rightarrow>
          bind_err (time_to_seconds s_str) (\<lambda>s_time.
          bind_err (time_to_seconds e_str) (\<lambda>e_time.
          Inr (Some \<lparr>start_time = s_time, end_time = e_time, seg_text = txt,
                     start_str = s_str, end_str = e_str\<rparr>))))"

fun parse_lines :: "TimestampSegment list \<Rightarrow> string list \<Rightarrow> py_error + TimestampSegment list" where
  "parse_lines segments [] = Inr segments"
| "parse_lines segments (line # lines) =
     (case parse_line line of
        Inl e \<Rightarrow> Inl e
      | Inr None \<Rightarrow> parse_lines segments lines
      | Inr (Some seg) \<Rightarrow> parse_lines (segments @ [seg]) lines)"

definition parse_transcript_with_timestamps :: "string \<Rightarrow> py_error + TimestampSegment list" where
  "parse_transcript_with_timestamps transcript =
     parse_lines [] (split_char CHR 0x0A (strip transcript))"

text \<open>
  Reading a stamp \<open>HH:MM:SS.cc\<close>: the number written at position \<open>i\<close>, and the time of
  the stamp in centiseconds.  \<open>from_line seg groups\<close> says that the segment carries the three
  groups of a matched line and the times of its two stamps.
\<close>

definition stamp_field :: "string \<Rightarrow> nat \<Rightarrow> nat" where
  "stamp_field s i = 10 * digit_val (s ! i) + digit_val (s ! (i + 1))"

definition stamp_centiseconds :: "string \<Rightarrow> nat" where
  "stamp_centiseconds s =
     100 * (stamp_field s 0 * 3600 + stamp_field s 3 * 60 + stamp_field s 6) + stamp_field s 9"

definition from_line :: "TimestampSegment \<Rightarrow> string \<times> string \<times> string \<Rightarrow> bool" where
  "from_line seg groups =
     (groups = (start_str seg, end_str seg, seg_text seg)
      \<and> is_time_str (start_str seg) \<and> is_time_str (end_str seg)
      \<and> time_to_seconds (start_str seg) = Inr (start_time seg)
      \<and> time_to_seconds (end_str seg) = Inr (end_time seg))"

section \<open>Speech-to-text serialisation\<close>

text \<open>
  The format specification \<open>{x:.2f}\<close>: the decimal with two fractional digits nearest to
  the float's exact value, ties to even.
\<close>

definition format_2f :: "pyfloat \<Rightarrow> string" where
  "format_2f x =
     (let n = nat (round_half_even (\<bar>x\<bar> * 100));
          body = str_nat (n div 100) @ ''.'' @ format_02d (int (n mod 100))
      in if x < 0 then CHR ''-'' # body else body)"

text \<open>One segment as the speech-to-text model returns it (\<open>seg.start\<close>, \<open>seg.end\<close>,
  \<open>seg.text\<close>).\<close>

record WhisperSegment =
  seg_start :: pyfloat
  seg_end :: pyfloat
  whisper_text :: string

definition transcribe_line :: "WhisperSegment \<Rightarrow> string" where
  "transcribe_line seg =
     ''['' @ format_2f (seg_start seg) @ '' - '' @ format_2f (seg_end seg) @ ''] '' @ whisper_text seg"

text \<open>\<open>transcribe\<close>, given the segments the model produced for the audio file: the
  transcript it returns (and writes to the lecture's transcript file).\<close>

definition transcribe :: "WhisperSegment list \<Rightarrow> string" where
  "transcribe segments = join [CHR 0x0A] (map transcribe_line segments)"

section \<open>Backends\<close>

text \<open>
  The collaborators of the workflows: the transcript store (\<open>load_transcript\<close>: the text, or
  \<open>None\<close> when the file is absent), the vector store (\<open>get_collection_info\<close>, which
  catches its own errors and answers \<open>None\<close> for a missing collection, and
  \<open>similarity_search collection_name query k\<close>) and the language model (\<open>llm.invoke\<close>;
  \<open>get_llm\<close> only builds the client object).  Each is a function of its arguments that
  returns or raises.  Every stage returns, next to its result, the backend calls it made,
  in order.
\<close>

record Document =
  page_content :: string
  metadata_score :: "pyfloat option"

record backend =
  load_transcript :: "string \<Rightarrow> py_error + string option"
  get_collection_info :: "string \<Rightarrow> unit option"
  similarity_search :: "string \<Rightarrow> string \<Rightarrow> nat \<Rightarrow> py_error + Document list"
  llm_invoke :: "string \<Rightarrow> py_error + string"

datatype backend_call =
    LoadTranscript string
  | GetCollectionInfo string
  | SimilaritySearch string string nat
  | VectorStoreSearch string nat
  | LlmInvoke string

definition TOP_K :: nat where
  "TOP_K = 4"

text \<open>Truth value of an optional string: \<open>None\<close> and the empty string are false.\<close>

definition is_truthy :: "string option \<Rightarrow> bool" where
  "is_truthy v = (case v of None \<Rightarrow> False | Some t \<Rightarrow> t \<noteq> [])"

text \<open>\<open>range(i, stop, step)\<close> for a positive step.\<close>

function py_range :: "nat \<Rightarrow> nat \<Rightarrow> nat \<Rightarrow> nat list" where
  "py_range i stop step = (if i < stop \<and> 0 < step then i # py_range (i + step) stop step else [])"
  by pat_completeness auto
termination
  by (relation "measure (\<lambda>(i, stop, step). stop - i)") auto

declare py_range.simps [simp del]

text \<open>An f-string written over several lines inside triple quotes, every line indented by
  \<open>n\<close> blanks: a newline and the indentation before every line and before the closing
  quotes.\<close>

definition template :: "nat \<Rightarrow> string list \<Rightarrow> string" where
  "template n lines =
     concat (map (\<lambda>l. CHR 0x0A # replicate n CHR '' '' @ l) lines) @ CHR 0x0A # replicate n CHR '' ''"

section \<open>Map-reduce summarisation\<close>

text \<open>\<open>s.rfind(sub)\<close>: the highest index at which \<open>sub\<close> occurs in \<open>s\<close>, or \<open>-1\<close>.\<close>

fun rfind_from :: "string \<Rightarrow> string \<Rightarrow> nat \<Rightarrow> int" where
  "rfind_from s sub 0 = (if take (length sub) s = sub then 0 else - 1)"
| "rfind_from s sub (Suc i) =
     (if take (length sub) (drop (Suc i) s) = sub then int (Suc i) else rfind_from s sub i)"

definition rfind :: "string \<Rightarrow> string \<Rightarrow> int" where
  "rfind s sub = (if length s < length sub then - 1 else rfind_from s sub (length s - length sub))"

text \<open>
  One iteration of the chunking loop of \<open>generate_chunked_summary\<close> that does not leave the
  loop (\<open>start + 3500 < len(transcript)\<close>): the end of the chunk that starts at \<open>start\<close>.
  The break point is an index into the chunk and is compared with \<open>start + 1000\<close>.
\<close>

definition chunk_end :: "string \<Rightarrow> nat \<Rightarrow> nat" where
  "chunk_end transcript start =
     (let chunk_text = slice transcript start (start + 3500);
          last_period = rfind chunk_text ''. '';
          last_question = rfind chunk_text ''? '';
          last_exclamation = rfind chunk_text ''! '';
          break_point = max (max last_period last_question) last_exclamation
      in if int start + 1000 < break_point then nat (int start + break_point + 2)
         else start + 3500)"

function split_chunks :: "string \<Rightarrow> nat \<Rightarrow> string list \<Rightarrow> string list" where
  "split_chunks transcript start chunks =
     (if start < length transcript
      then if length transcript \<le> start + 3500
           then chunks @ [slice transcript start (length transcript)]
           else split_chunks transcript (chunk_end transcript start - 500)
                  (chunks @ [slice transcript start (chunk_end transcript start)])
      else chunks)"
  by pat_completeness auto
termination
  by (relation "measure (\<lambda>(transcript, start, chunks). length transcript - start)")
     (auto simp: chunk_end_def Let_def)

declare split_chunks.simps [simp del]

text \<open>\<open>llm.invoke(prompt).strip()\<close>, and a loop of such calls over a list of prompts; an
  exception of the backend is not caught and ends the function.\<close>

definition invoke :: "backend \<Rightarrow> string \<Rightarrow> (py_error + string) \<times> backend_call list" where
  "invoke B prompt =
     (case llm_invoke B prompt of
        Inl e \<Rightarrow> (Inl e, [LlmInvoke prompt])
      | Inr response \<Rightarrow> (Inr (strip response), [LlmInvoke prompt]))"

fun invoke_all :: "backend \<Rightarrow> string list \<Rightarrow> (py_error + string list) \<times> backend_call list" where
  "invoke_all B [] = (Inr [], [])"
| "invoke_all B (prompt # prompts) =
     (case invoke B prompt of
        (Inl e, calls) \<Rightarrow> (Inl e, calls)
      | (Inr summary, calls) \<Rightarrow>
          (case invoke_all B prompts of
             (Inl e, calls') \<Rightarrow> (Inl e, calls @ calls')
           | (Inr summaries, calls') \<Rightarrow> (Inr (summary # summaries), calls @ calls')))"

definition direct_prompt :: "string \<Rightarrow> string" where
  "direct_prompt transcript =
     template 8
       [''Please provide a concise summary of the following lecture transcript:'',
        [], transcript, [], ''Summary:'']"

definition chunk_prompt :: "nat \<Rightarrow> nat \<Rightarrow> string \<Rightarrow> string" where
  "chunk_prompt n i chunk =
     template 8
       [''Please provide a concise summary of this part of a lecture transcript (Part ''
          @ str_nat (i + 1) @ '' of '' @ str_nat n @ ''):'',
        [], chunk, [], ''Summary of this part:'']"

definition combine_prompt :: "string \<Rightarrow> string" where
  "combine_prompt combined_chunks =
     template 8
       [''Please create a coherent, comprehensive summary from these partial summaries of a lecture:'',
        [], combined_chunks, [], ''Final Summary:'']"

definition group_prompt :: "nat \<Rightarrow> string \<Rightarrow> string" where
  "group_prompt i group_text =
     template 12
       [''Please combine these partial summaries into a coherent summary (Section ''
          @ str_nat (i div 3 + 1) @ ''):'',
        [], group_text, [], ''Combined Summary:'']"

text \<open>The last prompt joins the characters of the joined section summaries with
  newlines: \<open>chr(10).join(chr(10).join(mid_summaries))\<close>.\<close>

definition sections_prompt :: "string list \<Rightarrow> string" where
  "sections_prompt mid_summaries =
     template 8
       [''Please create a final, comprehensive summary from these section summaries:'',
        [], join [CHR 0x0A] (map (\<lambda>c. [c]) (join [CHR 0x0A] mid_summaries)), [], ''Final Summary:'']"

definition chunk_prompts :: "string list \<Rightarrow> string list" where
  "chunk_prompts chunks =
     map (\<lambda>(i, chunk). chunk_prompt (length chunks) i chunk) (zip [0..<length chunks] chunks)"

definition group_prompts :: "string list \<Rightarrow> string list" where
  "group_prompts chunk_summaries =
     map (\<lambda>i. group_prompt i (join [CHR 0x0A, CHR 0x0A] (slice chunk_summaries i (i + 3))))
       (py_range 0 (length chunk_summaries) 3)"

definition generate_chunked_summary :: "backend \<Rightarrow> string \<Rightarrow> (py_error + string) \<times> backend_call list" where
  "generate_chunked_summary B transcript =
     (if length transcript \<le> 4000 then invoke B (direct_prompt transcript)
      else
        case invoke_all B (chunk_prompts (split_chunks transcript 0 [])) of
          (Inl e, calls) \<Rightarrow> (Inl e, calls)
        | (Inr chunk_summaries, calls) \<Rightarrow>
            (let combined_chunks = join [CHR 0x0A, CHR 0x0A] chunk_summaries
             in if length combined_chunks \<le> 4000
                then (case invoke B (combine_prompt combined_chunks) of
                        (r, calls') \<Rightarrow> (r, calls @ calls'))
                else (case invoke_all B (group_prompts chunk_summaries) of
                        (Inl e, calls') \<Rightarrow> (Inl e, calls @ calls')
                      | (Inr mid_summaries, calls') \<Rightarrow>
                          (case invoke B (sections_prompt mid_summaries) of
                             (r, calls'') \<Rightarrow> (r, calls @ calls' @ calls'')))))"

text \<open>The summary stage of the summarisation workflow, \<open>generate_summary_node\<close>, on the
  fields it reads and writes.\<close>

record SummarizationState =
  summary_lecture_id :: string
  summary_transcript :: "string option"
  summary :: "string option"
  key_topics :: "string list"
  summary_error :: "string option"

definition summary_prompt :: "string \<Rightarrow> string" where
  "summary_prompt t =
     template 8
       [''Please provide a comprehensive summary of the following lecture transcript. Include:'',
        ''1. Main topics covered'',
        ''2. Key concepts and definitions'',
        ''3. Important examples or demonstrations'',
        ''4. Overall themes and conclusions'',
        [], ''Transcript:'', t, [], ''Summary:'']"

definition generate_summary_node ::
  "backend \<Rightarrow> SummarizationState \<Rightarrow> SummarizationState \<times> backend_call list" where
  "generate_summary_node B state =
     (if \<not> is_truthy (summary_transcript state)
      then (state\<lparr>summary_error := Some ''No transcript available for summarization''\<rparr>, [])
      else
        let prompt = summary_prompt (case summary_transcript state of Some t \<Rightarrow> t | None \<Rightarrow> [])
        in case llm_invoke B prompt of
             Inl e \<Rightarrow> (state\<lparr>summary_error := Some (''Error generating summary: '' @ str_error e)\<rparr>,
                       [LlmInvoke prompt])
           | Inr response \<Rightarrow> (state\<lparr>summary := Some (strip response)\<rparr>, [LlmInvoke prompt]))"

section \<open>Segment matcher and citations\<close>

text \<open>The citation dictionary: the keys of a segment (\<open>seg_text\<close> is the key \<open>text\<close>) and
  \<open>video_timestamp\<close>; a search result has \<open>lecture_id\<close> and \<open>relevance_score\<close> as well.\<close>

record Source = TimestampSegment +
  video_timestamp :: string

record SearchResult = Source +
  result_lecture_id :: string
  relevance_score :: pyfloat

definition segment_matches :: "string \<Rightarrow> TimestampSegment \<Rightarrow> bool" where
  "segment_matches chunk segment =
     (contains (seg_text segment) (strip chunk) \<or> contains chunk (strip (seg_text segment)))"

text \<open>The inner loop \<open>for segment in segments: if ...: ...; break\<close>: the segment it stops at.\<close>

fun find_segment :: "string \<Rightarrow> TimestampSegment list \<Rightarrow> TimestampSegment option" where
  "find_segment chunk [] = None"
| "find_segment chunk (segment # segments) =
     (if segment_matches chunk segment then Some segment else find_segment chunk segments)"

definition source_of :: "TimestampSegment \<Rightarrow> Source" where
  "source_of segment =
     \<lparr>start_time = start_time segment, end_time = end_time segment, seg_text = seg_text segment,
      start_str = start_str segment, end_str = end_str segment,
      video_timestamp = format_timestamp_for_video (start_time segment)\<rparr>"

text \<open>The loop over the chunks in \<open>extract_sources_node\<close> and in \<open>ask_question\<close>: the inner
  loop has no \<open>else\<close> branch.\<close>

fun extract_sources_loop :: "TimestampSegment list \<Rightarrow> Source list \<Rightarrow> string list \<Rightarrow> Source list" where
  "extract_sources_loop segments sources [] = sources"
| "extract_sources_loop segments sources (chunk # chunks) =
     (case find_segment chunk segments of
        None \<Rightarrow> extract_sources_loop segments sources chunks
      | Some segment \<Rightarrow> extract_sources_loop segments (sources @ [source_of segment]) chunks)"

definition doc_score :: "Document \<Rightarrow> pyfloat" where
  "doc_score doc = (case metadata_score doc of None \<Rightarrow> 0 | Some x \<Rightarrow> x)"

definition matched_result :: "string \<Rightarrow> Document \<Rightarrow> TimestampSegment \<Rightarrow> SearchResult" where
  "matched_result lecture doc segment =
     \<lparr>start_time = start_time segment, end_time = end_time segment, seg_text = page_content doc,
      start_str = start_str segment, end_str = end_str segment,
      video_timestamp = format_timestamp_for_video (start_time segment),
      result_lecture_id = lecture, relevance_score = doc_score doc\<rparr>"

definition fallback_result :: "string \<Rightarrow> Document \<Rightarrow> SearchResult" where
  "fallback_result lecture doc =
     \<lparr>start_time = 0, end_time = 0, seg_text = page_content doc,
      start_str = ''00:00:00.00'', end_str = ''00:00:00.00'',
      video_timestamp = ''0s'',
      result_lecture_id = lecture, relevance_score = doc_score doc\<rparr>"

text \<open>The loop over the documents in \<open>search_lecture_node\<close>: the inner loop has an
  \<open>else\<close> branch that appends the fallback result.\<close>

fun search_results_loop ::
  "string \<Rightarrow> TimestampSegment list \<Rightarrow> SearchResult list \<Rightarrow> Document list \<Rightarrow> SearchResult list" where
  "search_results_loop lecture segments results [] = results"
| "search_results_loop lecture segments results (doc # docs) =
     (case find_segment (page_content doc) segments of
        None \<Rightarrow> search_results_loop lecture segments (results @ [fallback_result lecture doc]) docs
      | Some segment \<Rightarrow>
          search_results_loop lecture segments (results @ [matched_result lecture doc segment]) docs)"

section \<open>Single-lecture question answering\<close>

record LectureProcessingState =
  lecture_id :: string
  transcript :: "string option"
  question :: "string option"
  context_chunks :: "string list"
  answer :: "string option"
  sources :: "Source list"
  error :: "string option"
  metadata :: "(string \<times> string) list"

definition load_transcript_node ::
  "backend \<Rightarrow> LectureProcessingState \<Rightarrow> LectureProcessingState \<times> backend_call list" where
  "load_transcript_node B state =
     (case load_transcript B (lecture_id state) of
        Inl e \<Rightarrow> (state\<lparr>error := Some (''Error loading transcript: '' @ str_error e)\<rparr>,
                  [LoadTranscript (lecture_id state)])
      | Inr t \<Rightarrow>
          if \<not> is_truthy t
          then (state\<lparr>error := Some (''Transcript not found for lecture '' @ lecture_id state)\<rparr>,
                [LoadTranscript (lecture_id state)])
          else (state\<lparr>transcript := t\<rparr>, [LoadTranscript (lecture_id state)]))"

text \<open>The fallback of the retrieval stage:
  \<open>[transcript[i:i+1000] for i in range(0, len(transcript), 2000)][:5]\<close>.\<close>

definition fallback_chunks :: "string \<Rightarrow> string list" where
  "fallback_chunks t = take 5 (map (\<lambda>i. slice t i (i + 1000)) (py_range 0 (length t) 2000))"

definition retrieve_relevant_chunks ::
  "backend \<Rightarrow> LectureProcessingState \<Rightarrow> LectureProcessingState \<times> backend_call list" where
  "retrieve_relevant_chunks B state =
     (if \<not> is_truthy (question state) then (state\<lparr>error := Some ''No question provided''\<rparr>, [])
      else
        let collection_name = ''lecture_'' @ lecture_id state
        in case get_collection_info B collection_name of
             None \<Rightarrow>
               (if is_truthy (transcript state)
                then state\<lparr>context_chunks :=
                             fallback_chunks (case transcript state of Some t \<Rightarrow> t | None \<Rightarrow> [])\<rparr>
                else state,
                [GetCollectionInfo collection_name])
           | Some info \<Rightarrow>
               (let q = (case question state of Some q \<Rightarrow> q | None \<Rightarrow> [])
                in case similarity_search B collection_name q TOP_K of
                     Inl e \<Rightarrow>
                       (state\<lparr>error := Some (''Error retrieving chunks: '' @ str_error e)\<rparr>,
                        [GetCollectionInfo collection_name, SimilaritySearch collection_name q TOP_K])
                   | Inr docs \<Rightarrow>
                       (state\<lparr>context_chunks := map page_content docs\<rparr>,
                        [GetCollectionInfo collection_name, SimilaritySearch collection_name q TOP_K])))"

definition qa_prompt :: "string \<Rightarrow> string \<Rightarrow> string" where
  "qa_prompt context q =
     template 8
       [''Based on the following lecture transcript, please answer the user'' @ [CHR 0x27]
          @ ''s question comprehensively.'',
        ''Use the provided context to give a detailed and accurate answer.'',
        [],
        ''Context:'',
        context,
        [],
        ''User Question: '' @ q,
        [],
        ''Please provide a comprehensive answer based on the lecture content above:'']"

definition generate_answer_node ::
  "backend \<Rightarrow> LectureProcessingState \<Rightarrow> LectureProcessingState \<times> backend_call list" where
  "generate_answer_node B state =
     (if \<not> is_truthy (question state) then (state\<lparr>error := Some ''No question provided''\<rparr>, [])
      else
        let q = (case question state of Some q \<Rightarrow> q | None \<Rightarrow> []);
            context = (if context_chunks state \<noteq> []
                       then join [CHR 0x0A, CHR 0x0A] (context_chunks state)
                       else (case transcript state of Some t \<Rightarrow> t | None \<Rightarrow> []));
            prompt = qa_prompt context q
        in case llm_invoke B prompt of
             Inl e \<Rightarrow> (state\<lparr>error := Some (''Error generating answer: '' @ str_error e)\<rparr>,
                       [LlmInvoke prompt])
           | Inr response \<Rightarrow> (state\<lparr>answer := Some (strip response)\<rparr>, [LlmInvoke prompt]))"

definition extract_sources_node ::
  "backend \<Rightarrow> LectureProcessingState \<Rightarrow> LectureProcessingState \<times> backend_call list" where
  "extract_sources_node B state =
     (if \<not> is_truthy (transcript state) then (state, [])
      else
        case parse_transcript_with_timestamps (case transcript state of Some t \<Rightarrow> t | None \<Rightarrow> []) of
          Inl e \<Rightarrow> (state\<lparr>error := Some (''Error extracting sources: '' @ str_error e)\<rparr>, [])
        | Inr segments \<Rightarrow>
            (state\<lparr>sources := extract_sources_loop segments [] (context_chunks state)\<rparr>, []))"

text \<open>The compiled graph: the four stages in sequence, from the initial state that
  \<open>run_lecture_qa\<close> builds.\<close>

definition initial_qa_state :: "string \<Rightarrow> string \<Rightarrow> LectureProcessingState" where
  "initial_qa_state lecture q =
     \<lparr>lecture_id = lecture, transcript = None, question = Some q, context_chunks = [],
      answer = None, sources = [], error = None, metadata = []\<rparr>"

definition then_stage ::
  "('s \<Rightarrow> 's \<times> backend_call list) \<Rightarrow> 's \<times> backend_call list \<Rightarrow> 's \<times> backend_call list" where
  "then_stage stage r =
     (case r of (state, calls) \<Rightarrow> (case stage state of (state', calls') \<Rightarrow> (state', calls @ calls')))"

definition run_lecture_qa ::
  "backend \<Rightarrow> string \<Rightarrow> string \<Rightarrow> LectureProcessingState \<times> backend_call list" where
  "run_lecture_qa B lecture q =
     then_stage (extract_sources_node B)
       (then_stage (generate_answer_node B)
         (then_stage (retrieve_relevant_chunks B)
           (load_transcript_node B (initial_qa_state lecture q))))"

text \<open>The path without the workflow, \<open>ask_question\<close>; \<open>vector_store\<close> is the
  \<open>similarity_search (question, k=5)\<close> of the store it is given.\<close>

definition rag_prompt :: "string \<Rightarrow> string \<Rightarrow> string" where
  "rag_prompt t q =
     template 4
       [''Based on the following lecture transcript, please answer the user'' @ [CHR 0x27]
          @ ''s question comprehensively.'',
        ''Use the full transcript context to provide a detailed and accurate answer.'',
        [],
        ''Lecture Transcript:'',
        t,
        [],
        ''User Question: '' @ q,
        [],
        ''Please provide a comprehensive answer based on the lecture content above:'']"

definition ask_question ::
  "backend \<Rightarrow> (string \<Rightarrow> nat \<Rightarrow> py_error + Document list) \<Rightarrow> string \<Rightarrow> string
     \<Rightarrow> (py_error + string \<times> Source list) \<times> backend_call list" where
  "ask_question B vector_store q lecture =
     (case load_transcript B lecture of
        Inl e \<Rightarrow> (Inl e, [LoadTranscript lecture])
      | Inr topt \<Rightarrow>
          if \<not> is_truthy topt
          then (Inr (''Transcript not found for this lecture.'', []), [LoadTranscript lecture])
          else
            let t = (case topt of Some t \<Rightarrow> t | None \<Rightarrow> []);
                relevant_chunks = (case vector_store q 5 of
                                     Inr docs \<Rightarrow> map page_content docs
                                   | Inl e \<Rightarrow> fallback_chunks t);
                prompt = rag_prompt t q;
                answer = (case llm_invoke B prompt of
                            Inr response \<Rightarrow> strip response
                          | Inl e \<Rightarrow> ''Error generating answer: '' @ str_error e);
                calls = [LoadTranscript lecture, VectorStoreSearch q 5, LlmInvoke prompt]
            in case parse_transcript_with_timestamps t of
                 Inl e \<Rightarrow> (Inl e, calls)
               | Inr segments \<Rightarrow>
                   (Inr (answer, extract_sources_loop segments [] relevant_chunks), calls))"

section \<open>Multi-lecture search\<close>

record MultiLectureState =
  query :: string
  lecture_ids :: "string list"
  results :: "SearchResult list"
  consolidated_answer :: "string option"
  error_multi :: "string option"

definition search_lecture_node ::
  "backend \<Rightarrow> MultiLectureState \<Rightarrow> string \<Rightarrow> SearchResult list \<times> backend_call list" where
  "search_lecture_node B state lecture =
     (let collection_name = ''lecture_'' @ lecture
      in case get_collection_info B collection_name of
           None \<Rightarrow> ([], [GetCollectionInfo collection_name])
         | Some info \<Rightarrow>
             (case similarity_search B collection_name (query state) TOP_K of
                Inl e \<Rightarrow> ([], [GetCollectionInfo collection_name,
                               SimilaritySearch collection_name (query state) TOP_K])
              | Inr docs \<Rightarrow>
                  (let calls = [GetCollectionInfo collection_name,
                                SimilaritySearch collection_name (query state) TOP_K,
                                LoadTranscript lecture]
                   in case load_transcript B lecture of
                        Inl e \<Rightarrow> ([], calls)
                      | Inr topt \<Rightarrow>
                          if is_truthy topt
                          then (case parse_transcript_with_timestamps
                                       (case topt of Some t \<Rightarrow> t | None \<Rightarrow> []) of
                                  Inl e \<Rightarrow> ([], calls)
                                | Inr segments \<Rightarrow> (search_results_loop lecture segments [] docs, calls))
                          else ([], calls))))"

text \<open>The loop \<open>for lecture_id in state.lecture_ids: all_results.extend (...)\<close>.\<close>

fun search_all_loop ::
  "backend \<Rightarrow> MultiLectureState \<Rightarrow> SearchResult list \<times> backend_call list \<Rightarrow> string list
     \<Rightarrow> SearchResult list \<times> backend_call list" where
  "search_all_loop B state acc [] = acc"
| "search_all_loop B state acc (lecture # lectures) =
     (case acc of (all_results, calls) \<Rightarrow>
        (case search_lecture_node B state lecture of (rs, cs) \<Rightarrow>
           search_all_loop B state (all_results @ rs, calls @ cs) lectures))"

text \<open>Every result dictionary is built with the key \<open>relevance_score\<close>.\<close>

definition has_relevance_score :: "SearchResult \<Rightarrow> bool" where
  "has_relevance_score r = True"

text \<open>\<open>xs.sort(key=..., reverse=True)\<close> is a stable sort into descending order of the key:
  results with equal scores keep their order.\<close>

definition sort_by_relevance :: "SearchResult list \<Rightarrow> SearchResult list" where
  "sort_by_relevance xs = sort_key (\<lambda>r. - relevance_score r) xs"

definition search_all_lectures_node ::
  "backend \<Rightarrow> MultiLectureState \<Rightarrow> MultiLectureState \<times> backend_call list" where
  "search_all_lectures_node B state =
     (case search_all_loop B state ([], []) (lecture_ids state) of (all_results, calls) \<Rightarrow>
        (let sorted_results =
               (if all_results \<noteq> [] \<and> list_ex has_relevance_score all_results
                then sort_by_relevance all_results else all_results)
         in (state\<lparr>results := take 20 sorted_results\<rparr>, calls)))"

definition consolidate_prompt :: "string \<Rightarrow> string \<Rightarrow> string" where
  "consolidate_prompt q context =
     template 8
       [''Based on the following search results from multiple lectures, provide a comprehensive answer to the user''
          @ [CHR 0x27] @ ''s query.'',
        [],
        ''Query: '' @ q,
        [],
        ''Search Results:'',
        context,
        [],
        ''Please provide a consolidated answer that synthesizes information from all relevant lectures:'']"

definition result_line :: "SearchResult \<Rightarrow> string" where
  "result_line r =
     ''Lecture '' @ result_lecture_id r @ '' ('' @ video_timestamp r @ ''): '' @ seg_text r"

definition consolidate_answer_node ::
  "backend \<Rightarrow> MultiLectureState \<Rightarrow> MultiLectureState \<times> backend_call list" where
  "consolidate_answer_node B state =
     (if results state = []
      then (state\<lparr>consolidated_answer := Some ''No relevant information found across the lectures.''\<rparr>, [])
      else
        let top_results = take 10 (results state);
            context = join [CHR 0x0A, CHR 0x0A] (map result_line top_results);
            prompt = consolidate_prompt (query state) context
        in case llm_invoke B prompt of
             Inl e \<Rightarrow> (state\<lparr>error_multi := Some (''Error consolidating answer: '' @ str_error e)\<rparr>,
                       [LlmInvoke prompt])
           | Inr response \<Rightarrow> (state\<lparr>consolidated_answer := Some (strip response)\<rparr>, [LlmInvoke prompt]))"

definition run_multi_lecture_search ::
  "backend \<Rightarrow> string \<Rightarrow> string list \<Rightarrow> MultiLectureState \<times> backend_call list" where
  "run_multi_lecture_search B q lectures =
     then_stage (consolidate_answer_node B)
       (search_all_lectures_node B
          \<lparr>query = q, lecture_ids = lectures, results = [], consolidated_answer = None,
           error_multi = None\<rparr>)"

section \<open>Example inputs\<close>

text \<open>
  A transcript of two lines, and backends for the examples: lectures \<open>L1\<close> and \<open>L2\<close> have
  this transcript and a vector collection, every other lecture has neither; a search in
  \<open>lecture_L2\<close> finds the second line with score 0.9 and a text that is in no line, a
  search elsewhere finds the first line with score 0.7; the language model answers every
  prompt with the same text.
\<close>

definition example_transcript :: string where
  "example_transcript =
     ''[00:00:01.00 - 00:00:02.50] Hello world'' @ [CHR 0x0A]
       @ ''[00:00:02.50 - 00:00:04.00] Second part''"

definition example_search :: "string \<Rightarrow> string \<Rightarrow> nat \<Rightarrow> py_error + Document list" where
  "example_search collection_name q k =
     (if collection_name = ''lecture_L2''
      then Inr [\<lparr>page_content = ''Second part'', metadata_score = Some (fl (9 / 10))\<rparr>,
                \<lparr>page_content = ''nowhere in the lecture'', metadata_score = Some (fl (9 / 10))\<rparr>]
      else Inr [\<lparr>page_content = ''Hello world'', metadata_score = Some (fl (7 / 10))\<rparr>])"

definition example_backend :: backend where
  "example_backend =
     \<lparr>load_transcript = (\<lambda>l. if l = ''L1'' \<or> l = ''L2'' then Inr (Some example_transcript) else Inr None),
      get_collection_info = (\<lambda>c. if c = ''lecture_L1'' \<or> c = ''lecture_L2'' then Some () else None),
      similarity_search = example_search,
      llm_invoke = (\<lambda>p. Inr '' An answer. '')\<rparr>"

text \<open>The state of the question-answering workflow after \<open>load_transcript_node\<close> found no
  transcript for lecture \<open>L9\<close>, and a state with the example transcript and two retrieved
  chunks, the second of which is in no line of it.\<close>

definition failed_load_state :: LectureProcessingState where
  "failed_load_state =
     \<lparr>lecture_id = ''L9'', transcript = None, question = Some ''What?'', context_chunks = [],
      answer = None, sources = [], error = Some ''Transcript not found for lecture L9'',
      metadata = []\<rparr>"

definition two_chunk_state :: LectureProcessingState where
  "two_chunk_state =
     \<lparr>lecture_id = ''L1'', transcript = Some example_transcript, question = Some ''What?'',
      context_chunks = [''Hello world'', ''nowhere in the lecture''],
      answer = None, sources = [], error = None, metadata = []\<rparr>"

text \<open>A search over three lectures, the second of which has no collection.\<close>

definition three_lecture_state :: MultiLectureState where
  "three_lecture_state =
     \<lparr>query = ''q'', lecture_ids = [''L1'', ''L3'', ''L2''], results = [],
      consolidated_answer = None, error_multi = None\<rparr>"

section \<open>Properties of the floating-point operations\<close>

lemma bit_length_bounds:
  "0 < n \<Longrightarrow> 2 ^ (bit_length n - 1) \<le> n \<and> n < 2 ^ bit_length n"
proof (induction n rule: bit_length.induct)
  case (1 n)
  show ?case
  proof (cases "n div 2 = 0")
    case True
    with 1(2) have "n = 1" by presburger
    then show ?thesis by (simp add: bit_length.simps)
  next
    case False
    then have pos: "0 < n div 2" by simp
    have n0: "n \<noteq> 0" using 1(2) by simp
    from 1(1)[OF n0 pos] have ih: "2 ^ (bit_length (n div 2) - 1) \<le> n div 2" "n div 2 < 2 ^ bit_length (n div 2)"
      by simp_all
    have bl: "bit_length n = Suc (bit_length (n div 2))"
      using n0 by (subst bit_length.simps) simp
    have blpos: "0 < bit_length (n div 2)"
      using pos by (subst bit_length.simps) simp
    have "2 * 2 ^ (bit_length (n div 2) - 1) \<le> 2 * (n div 2)" using ih(1) by simp
    also have "\<dots> \<le> n" by simp
    finally have a: "2 ^ (bit_length n - 1) \<le> n"
      using blpos bl by (cases "bit_length (n div 2)") simp_all
    have "n < 2 * (n div 2) + 2" by presburger
    also have "\<dots> \<le> 2 * 2 ^ bit_length (n div 2)" using ih(2) by simp
    finally have b: "n < 2 ^ bit_length n" using bl by simp
    from a b show ?thesis by simp
  qed
qed

lemma pow2_powi: "pow2 k = 2 powi k"
  by (simp add: pow2_def power_int_def power_one_over [symmetric] inverse_eq_divide)

lemma pow2_pos: "0 < pow2 k"
  by (simp add: pow2_powi)

lemma pow2_add: "pow2 (a + b) = pow2 a * pow2 b"
  by (simp add: pow2_powi power_int_add)

lemma pow2_mono: "a \<le> b \<Longrightarrow> pow2 a \<le> pow2 b"
  by (simp add: pow2_powi power_int_increasing)

lemma pow2_less_cancel: "pow2 a < pow2 b \<Longrightarrow> a < b"
  using pow2_mono [of b a] by (cases "a < b") auto

lemma pow2_nat: "pow2 (int n) = 2 ^ n"
  by (simp add: pow2_def)

lemma pow2_neg_nat: "pow2 (- int n) = 1 / 2 ^ n"
  by (simp add: pow2_powi power_int_minus inverse_eq_divide)



lemma binary_exponent_bounds:
  assumes "0 < q"
  shows "pow2 (binary_exponent q) \<le> q \<and> q < pow2 (binary_exponent q + 1)"
proof (cases "1 \<le> q")
  case True
  define n where "n = nat \<lfloor>q\<rfloor>"
  have npos: "0 < n" using True by (simp add: n_def)
  have e: "binary_exponent q = int (bit_length n) - 1"
    using True by (simp add: binary_exponent_def n_def)
  from bit_length_bounds [OF npos]
  have b: "2 ^ (bit_length n - 1) \<le> n" "n < 2 ^ bit_length n" by simp_all
  have blpos: "0 < bit_length n" using npos by (subst bit_length.simps) simp
  have nq: "rat_of_nat n \<le> q" using True by (simp add: n_def)
  have qn: "q < rat_of_nat (n + 1)"
    using True by (simp add: n_def) linarith
  have "pow2 (int (bit_length n) - 1) = 2 ^ (bit_length n - 1)"
    using blpos pow2_nat [of "bit_length n - 1"] by (simp add: of_nat_diff)
  also have "\<dots> \<le> rat_of_nat n" using b(1) by (metis of_nat_le_iff of_nat_numeral of_nat_power)
  finally have lo: "pow2 (binary_exponent q) \<le> q" using nq e by simp
  have "n + 1 \<le> 2 ^ bit_length n" using b(2) by simp
  then have "rat_of_nat (n + 1) \<le> 2 ^ bit_length n"
    by (metis of_nat_le_iff of_nat_numeral of_nat_power)
  with qn have "q < 2 ^ bit_length n" by simp
  then have hi: "q < pow2 (binary_exponent q + 1)" using e pow2_nat [of "bit_length n"] by simp
  from lo hi show ?thesis by simp
next
  case False
  define r where "r = 1 / q"
  define m where "m = nat (\<lceil>r\<rceil> - 1)"
  define k where "k = bit_length m"
  have r1: "1 < r" using False assms by (simp add: r_def)
  then have c2: "2 \<le> \<lceil>r\<rceil>" by (simp add: le_ceiling_iff) 
  then have mpos: "0 < m" by (simp add: m_def)
  have mc: "int m = \<lceil>r\<rceil> - 1" using c2 by (simp add: m_def)
  have e: "binary_exponent q = - int k"
    using False by (simp add: binary_exponent_def k_def m_def r_def)
  from bit_length_bounds [OF mpos]
  have b: "2 ^ (k - 1) \<le> m" "m < 2 ^ k" by (simp_all add: k_def)
  have kpos: "0 < k" using mpos unfolding k_def by (subst bit_length.simps) simp
  have "int m + 1 \<le> 2 ^ k" using b(2)
    by (metis add.commute of_nat_Suc of_nat_le_iff of_nat_numeral of_nat_power Suc_leI plus_1_eq_Suc)
  then have "\<lceil>r\<rceil> \<le> 2 ^ k" using mc by simp
  then have "r \<le> of_int (2 ^ k)" by (simp only: ceiling_le_iff)
  then have rk: "r \<le> 2 ^ k" by simp
  have "1 / 2 ^ k \<le> 1 / r"
    using rk r1 by (intro divide_left_mono) simp_all
  then have lo: "pow2 (binary_exponent q) \<le> q"
    using e assms by (simp add: pow2_neg_nat r_def)
  have "(2::int) ^ (k - 1) \<le> int m" using b(1)
    by (metis of_nat_le_iff of_nat_numeral of_nat_power)
  then have "2 ^ (k - 1) \<le> \<lceil>r\<rceil> - 1" using mc by simp
  then have "of_int (2 ^ (k - 1)) < r" by (simp only: less_ceiling_iff [symmetric])
  then have kr: "2 ^ (k - 1) < r" by simp
  have "1 / r < 1 / 2 ^ (k - 1)"
    using kr r1 by (intro divide_strict_left_mono) simp_all
  moreover have "pow2 (- int k + 1) = 1 / 2 ^ (k - 1)"
    using kpos pow2_neg_nat [of "k - 1"] by (simp add: of_nat_diff)
  ultimately have hi: "q < pow2 (binary_exponent q + 1)"
    using e assms by (simp add: r_def)
  from lo hi show ?thesis by simp
qed

lemma round_half_even_of_int [simp]: "round_half_even (of_int n) = n"
  by (simp add: round_half_even_def)

lemma round_half_even_bounds: "\<lfloor>x\<rfloor> \<le> round_half_even x \<and> round_half_even x \<le> \<lfloor>x\<rfloor> + 1"
  by (simp add: round_half_even_def Let_def)

lemma round_half_even_mono:
  assumes "x \<le> y"
  shows "round_half_even x \<le> round_half_even y"
proof (cases "\<lfloor>x\<rfloor> < \<lfloor>y\<rfloor>")
  case True
  have "round_half_even x \<le> \<lfloor>x\<rfloor> + 1" using round_half_even_bounds by blast
  also have "\<dots> \<le> \<lfloor>y\<rfloor>" using True by simp
  also have "\<dots> \<le> round_half_even y" using round_half_even_bounds by blast
  finally show ?thesis .
next
  case False
  then have eq: "\<lfloor>x\<rfloor> = \<lfloor>y\<rfloor>" using assms floor_mono [of x y] by simp
  have "x - of_int \<lfloor>y\<rfloor> \<le> y - of_int \<lfloor>y\<rfloor>" using assms by simp
  then show ?thesis
    unfolding round_half_even_def Let_def eq by auto
qed



lemma pow2_nonneg_of_int: "0 \<le> k \<Longrightarrow> pow2 k = of_int (2 ^ nat k)"
  by (simp add: pow2_def)

lemma pow2_divide: "pow2 a / pow2 b = pow2 (a - b)"
proof -
  have "pow2 (a - b) * pow2 b = pow2 a" using pow2_add [of "a - b" b] by simp
  then show ?thesis using pow2_pos [of b] by (simp add: field_simps)
qed

lemma round_half_even_le: "x \<le> of_int n \<Longrightarrow> round_half_even x \<le> n"
  using round_half_even_mono [of x "of_int n"] by simp

lemma round_half_even_ge: "of_int n \<le> x \<Longrightarrow> n \<le> round_half_even x"
  using round_half_even_mono [of "of_int n" x] by simp

lemma binary_exponent_mono:
  assumes "0 < x" "x \<le> y"
  shows "binary_exponent x \<le> binary_exponent y"
proof -
  have "pow2 (binary_exponent x) \<le> x" using binary_exponent_bounds [of x] assms by simp
  also have "\<dots> \<le> y" by fact
  also have "\<dots> < pow2 (binary_exponent y + 1)" using binary_exponent_bounds [of y] assms by simp
  finally show ?thesis using pow2_less_cancel by fastforce
qed

lemma fl_pos_nonneg: "0 < q \<Longrightarrow> 0 \<le> fl_pos q"
proof -
  assume "0 < q"
  then have "of_int 0 \<le> q / pow2 (ulp_exponent q)" using pow2_pos [of "ulp_exponent q"] by simp
  then have "0 \<le> round_half_even (q / pow2 (ulp_exponent q))" by (rule round_half_even_ge)
  then show ?thesis using pow2_pos [of "ulp_exponent q"] by (simp add: fl_pos_def)
qed

lemma fl_pos_mono:
  assumes "0 < x" "x \<le> y"
  shows "fl_pos x \<le> fl_pos y"
proof -
  define ex where "ex = binary_exponent x"
  define ey where "ey = binary_exponent y"
  define kx where "kx = ulp_exponent x"
  define ky where "ky = ulp_exponent y"
  have ypos: "0 < y" using assms by simp
  have exy: "ex \<le> ey" unfolding ex_def ey_def using assms by (rule binary_exponent_mono)
  have kx: "kx = max (ex - 52) (- 1074)" and ky: "ky = max (ey - 52) (- 1074)"
    by (simp_all add: kx_def ky_def ex_def ey_def ulp_exponent_def)
  have kxy: "kx \<le> ky" using exy kx ky by simp
  show ?thesis
  proof (cases "kx = ky")
    case True
    have "x / pow2 ky \<le> y / pow2 ky" using assms pow2_pos [of ky] by (simp add: divide_right_mono)
    then have "round_half_even (x / pow2 ky) \<le> round_half_even (y / pow2 ky)"
      by (rule round_half_even_mono)
    then have "rat_of_int (round_half_even (x / pow2 ky)) * pow2 ky
               \<le> rat_of_int (round_half_even (y / pow2 ky)) * pow2 ky"
      using pow2_pos [of ky] by (simp add: mult_right_mono)
    then show ?thesis using True by (simp add: fl_pos_def kx_def ky_def)
  next
    case False
    then have lt: "kx < ky" using kxy by simp
    then have ky': "ky = ey - 52" using kx ky by linarith
    have exlt: "ex + 1 \<le> ey" using lt kx ky exy by (cases "ex = ey") simp_all
    have x_lt: "x < pow2 (ex + 1)" using binary_exponent_bounds [OF assms(1)] by (simp add: ex_def)
    have y_ge: "pow2 ey \<le> y" using binary_exponent_bounds [OF ypos] by (simp add: ey_def)
    have x_le: "x \<le> pow2 ey" using x_lt pow2_mono [OF exlt] by simp
    \<comment> \<open>the upper value is at least \<open>2 ^ ey\<close>\<close>
    have "pow2 ey / pow2 ky \<le> y / pow2 ky" using y_ge pow2_pos [of ky] by (simp add: divide_right_mono)
    then have "rat_of_int (2 ^ 52) \<le> y / pow2 ky"
      using pow2_nonneg_of_int [of 52] by (simp add: pow2_divide ky')
    then have "2 ^ 52 \<le> round_half_even (y / pow2 ky)" by (rule round_half_even_ge)
    then have "rat_of_int (2 ^ 52) \<le> rat_of_int (round_half_even (y / pow2 ky))"
      by (simp only: of_int_le_iff)
    then have "rat_of_int (2 ^ 52) * pow2 ky \<le> rat_of_int (round_half_even (y / pow2 ky)) * pow2 ky"
      using pow2_pos [of ky] by (simp only: mult_le_cancel_right) simp
    moreover have "rat_of_int (2 ^ 52) * pow2 ky = pow2 ey"
      using pow2_add [of 52 ky] pow2_nonneg_of_int [of 52] by (simp add: ky')
    ultimately have hi: "pow2 ey \<le> fl_pos y" by (simp add: fl_pos_def ky_def)
    \<comment> \<open>the lower value is at most \<open>2 ^ ey\<close>\<close>
    have d: "0 \<le> ey - kx" using lt ky' by simp
    have "x / pow2 kx \<le> pow2 ey / pow2 kx" using x_le pow2_pos [of kx] by (simp add: divide_right_mono)
    then have "x / pow2 kx \<le> rat_of_int (2 ^ nat (ey - kx))"
      using pow2_nonneg_of_int [OF d] by (simp add: pow2_divide)
    then have "round_half_even (x / pow2 kx) \<le> 2 ^ nat (ey - kx)" by (rule round_half_even_le)
    then have "rat_of_int (round_half_even (x / pow2 kx)) \<le> rat_of_int (2 ^ nat (ey - kx))"
      by (simp only: of_int_le_iff)
    then have "rat_of_int (round_half_even (x / pow2 kx)) * pow2 kx \<le> rat_of_int (2 ^ nat (ey - kx)) * pow2 kx"
      using pow2_pos [of kx] by (simp only: mult_le_cancel_right) simp
    moreover have "rat_of_int (2 ^ nat (ey - kx)) * pow2 kx = pow2 ey"
      using pow2_add [of "ey - kx" kx] pow2_nonneg_of_int [OF d] by simp
    ultimately have lo: "fl_pos x \<le> pow2 ey" by (simp add: fl_pos_def kx_def)
    from lo hi show ?thesis by simp
  qed
qed

lemma fl_mono:
  assumes "x \<le> y"
  shows "fl x \<le> fl y"
proof -
  consider "0 < x" | "x \<le> 0" "0 < y" | "x < 0" "y = 0" | "x = 0" "y = 0" | "y < 0"
    using assms by fastforce
  then show ?thesis
  proof cases
    case 1
    then show ?thesis using assms fl_pos_mono [of x y] by (simp add: fl_def)
  next
    case 2
    then show ?thesis using fl_pos_nonneg [of y] fl_pos_nonneg [of "- x"] by (auto simp: fl_def)
  next
    case 3
    then show ?thesis using fl_pos_nonneg [of "- x"] by (simp add: fl_def)
  next
    case 4
    then show ?thesis by simp
  next
    case 5
    then have "fl_pos (- y) \<le> fl_pos (- x)" using assms fl_pos_mono [of "- y" "- x"] by simp
    then show ?thesis using 5 assms by (simp add: fl_def)
  qed
qed

lemma fl_pos_of_int:
  assumes "0 < n" "n < 2 ^ 53"
  shows "fl_pos (of_int n) = of_int n"
proof -
  define k where "k = ulp_exponent (of_int n)"
  have npos: "(0::rat) < of_int n" using assms by simp
  have "pow2 (binary_exponent (of_int n)) \<le> of_int n"
    using binary_exponent_bounds [OF npos] by simp
  also have "\<dots> < rat_of_int (2 ^ 53)" using assms(2) by (simp only: of_int_less_iff)
  also have "\<dots> = pow2 53" using pow2_nonneg_of_int [of 53] by simp
  finally have "binary_exponent (of_int n) < 53" by (rule pow2_less_cancel)
  then have k0: "k \<le> 0" by (simp add: k_def ulp_exponent_def)
  then have nk: "0 \<le> - k" by simp
  have "rat_of_int n / pow2 k = of_int n * pow2 (- k)"
    using pow2_divide [of 0 k] by (simp add: pow2_def)
  also have "\<dots> = of_int (n * 2 ^ nat (- k))"
    using pow2_nonneg_of_int [OF nk] by simp
  finally have "round_half_even (rat_of_int n / pow2 k) = n * 2 ^ nat (- k)"
    by (simp only: round_half_even_of_int)
  then have "fl_pos (of_int n) = of_int (n * 2 ^ nat (- k)) * pow2 k"
    by (simp add: fl_pos_def k_def)
  also have "\<dots> = of_int n * (pow2 (- k) * pow2 k)"
    using pow2_nonneg_of_int [OF nk] by simp
  also have "pow2 (- k) * pow2 k = 1"
    using pow2_add [of "- k" k] by (simp add: pow2_def)
  finally show ?thesis by simp
qed

lemma float_of_int_exact: "0 \<le> n \<Longrightarrow> n < 2 ^ 53 \<Longrightarrow> float_of_int n = of_int n"
  using fl_pos_of_int [of n] by (cases "n = 0") (simp_all add: float_of_int_def fl_def)

section \<open>Properties of the timestamp parser\<close>

lemma is_digit_not_sep: "is_digit c \<Longrightarrow> c \<noteq> CHR '':'' \<and> c \<noteq> CHR ''.''"
  by (auto simp: is_digit_def)

lemma py_int_two_digits:
  "is_digit a \<Longrightarrow> is_digit b \<Longrightarrow> py_int [a, b] = Inr (int (10 * digit_val a + digit_val b))"
  by (simp add: py_int_def)

lemma time_to_seconds_digits:
  assumes d: "is_digit a" "is_digit b" "is_digit c" "is_digit d" "is_digit e" "is_digit f"
    "is_digit g" "is_digit h"
  shows "time_to_seconds [a, b, CHR '':'', c, d, CHR '':'', e, f, CHR ''.'', g, h] =
    Inr (float_add (float_of_int (int (10 * digit_val a + digit_val b) * 3600
                        + int (10 * digit_val c + digit_val d) * 60 + int (10 * digit_val e + digit_val f)))
                   (int_truediv (int (10 * digit_val g + digit_val h)) 100))"
proof -
  have nc: "a \<noteq> CHR '':''" "b \<noteq> CHR '':''" "c \<noteq> CHR '':''" "d \<noteq> CHR '':''"
    "e \<noteq> CHR '':''" "f \<noteq> CHR '':''" "g \<noteq> CHR '':''" "h \<noteq> CHR '':''"
    using d is_digit_not_sep by blast+
  have nd: "e \<noteq> CHR ''.''" "f \<noteq> CHR ''.''" "g \<noteq> CHR ''.''" "h \<noteq> CHR ''.''"
    using d is_digit_not_sep by blast+
  have sp: "split_char CHR '':'' [a, b, CHR '':'', c, d, CHR '':'', e, f, CHR ''.'', g, h]
      = [[a, b], [c, d], [e, f, CHR ''.'', g, h]]"
    by (simp add: nc)
  have sp2: "split_char CHR ''.'' [e, f, CHR ''.'', g, h] = [[e, f], [g, h]]"
    by (simp add: nd)
  have "time_to_seconds [a, b, CHR '':'', c, d, CHR '':'', e, f, CHR ''.'', g, h] =
      bind_err (py_int [a, b]) (\<lambda>hours.
      bind_err (py_int [c, d]) (\<lambda>minutes.
      bind_err (py_int [e, f]) (\<lambda>seconds.
      bind_err (py_int [g, h]) (\<lambda>milliseconds.
        Inr (float_add (float_of_int (hours * 3600 + minutes * 60 + seconds))
                       (int_truediv milliseconds 100))))))"
    unfolding time_to_seconds_def Let_def sp
    by (simp add: list_get_def sp2 bind_err_def [of "Inr x" for x] del: split_char.simps)
  also have "\<dots> = Inr (float_add (float_of_int (int (10 * digit_val a + digit_val b) * 3600
                        + int (10 * digit_val c + digit_val d) * 60 + int (10 * digit_val e + digit_val f)))
                   (int_truediv (int (10 * digit_val g + digit_val h)) 100))"
    by (simp only: py_int_two_digits d bind_err_def sum.case)
  finally show ?thesis .
qed

lemma time_to_seconds_stamp:
  assumes "is_time_str s"
  shows "time_to_seconds s =
    Inr (float_add (float_of_int (int (stamp_field s 0) * 3600 + int (stamp_field s 3) * 60 + int (stamp_field s 6)))
                   (int_truediv (int (stamp_field s 9)) 100))"
proof -
  from assms have len: "length s = 11" by (simp add: is_time_str_def)
  then obtain x0 x1 x2 x3 x4 x5 x6 x7 x8 x9 x10 where s: "s = [x0, x1, x2, x3, x4, x5, x6, x7, x8, x9, x10]"
    by (auto simp: length_Suc_conv eval_nat_numeral)
  from assms have x: "x2 = CHR '':''" "x5 = CHR '':''" "x8 = CHR ''.''"
    and d: "is_digit x0" "is_digit x1" "is_digit x3" "is_digit x4" "is_digit x6" "is_digit x7"
      "is_digit x9" "is_digit x10"
    unfolding s by (simp_all add: is_time_str_def)
  show ?thesis
    unfolding s x by (simp add: time_to_seconds_digits [OF d] stamp_field_def)
qed

lemma match_line_stamps:
  "match_line l = Some (g1, g2, g3) \<Longrightarrow> is_time_str g1 \<and> is_time_str g2"
  by (simp add: match_line_def Let_def split: if_splits)

lemma parse_line_None: "match_line l = None \<Longrightarrow> parse_line l = Inr None"
  by (simp add: parse_line_def)

lemma parse_line_Some:
  assumes "match_line l = Some groups"
  shows "\<exists>seg. parse_line l = Inr (Some seg) \<and> from_line seg groups"
proof -
  obtain g1 g2 g3 where g: "groups = (g1, g2, g3)" by (cases groups) auto
  from assms g have st: "is_time_str g1" "is_time_str g2"
    using match_line_stamps by blast+
  from time_to_seconds_stamp [OF st(1)] obtain x where x: "time_to_seconds g1 = Inr x" by blast
  from time_to_seconds_stamp [OF st(2)] obtain y where y: "time_to_seconds g2 = Inr y" by blast
  have "parse_line l = Inr (Some \<lparr>start_time = x, end_time = y, seg_text = g3,
                      start_str = g1, end_str = g2\<rparr>)"
    using assms g by (simp add: parse_line_def bind_err_def x y)
  moreover have "from_line \<lparr>start_time = x, end_time = y, seg_text = g3,
                      start_str = g1, end_str = g2\<rparr> groups"
    using st g by (simp add: from_line_def x y)
  ultimately show ?thesis by blast
qed

lemma parse_lines_correct:
  "\<exists>segs. parse_lines acc ls = Inr (acc @ segs) \<and> list_all2 from_line segs (List.map_filter match_line ls)"
proof (induction ls arbitrary: acc)
  case Nil
  show ?case by (simp add: List.map_filter_simps)
next
  case (Cons l ls)
  show ?case
  proof (cases "match_line l")
    case None
    from Cons [of acc] obtain segs where
      "parse_lines acc ls = Inr (acc @ segs)" "list_all2 from_line segs (List.map_filter match_line ls)"
      by blast
    then show ?thesis using None by (simp add: parse_line_None List.map_filter_simps)
  next
    case (Some groups)
    from parse_line_Some [OF Some] obtain seg where
      seg: "parse_line l = Inr (Some seg)" "from_line seg groups" by blast
    from Cons [of "acc @ [seg]"] obtain segs where
      "parse_lines (acc @ [seg]) ls = Inr ((acc @ [seg]) @ segs)"
      "list_all2 from_line segs (List.map_filter match_line ls)"
      by blast
    then have "parse_lines acc (l # ls) = Inr (acc @ seg # segs)"
      "list_all2 from_line (seg # segs) (List.map_filter match_line (l # ls))"
      using seg Some by (simp_all add: List.map_filter_simps)
    then show ?thesis by blast
  qed
qed

lemma parse_transcript_correct:
  "\<exists>segs. parse_transcript_with_timestamps t = Inr segs
     \<and> list_all2 from_line segs (List.map_filter match_line (split_char CHR 0x0A (strip t)))"
  using parse_lines_correct [of "[]"] by (simp add: parse_transcript_with_timestamps_def)

section \<open>Order of the parsed times\<close>

lemma digit_val_le: "is_digit c \<Longrightarrow> digit_val c \<le> 9"
  by (auto simp: is_digit_def digit_val_def)

lemma stamp_field_le:
  assumes "is_time_str s"
  shows "stamp_field s 0 \<le> 99" "stamp_field s 3 \<le> 99" "stamp_field s 6 \<le> 99" "stamp_field s 9 \<le> 99"
proof -
  from assms have d: "is_digit (s ! 0)" "is_digit (s ! 1)" "is_digit (s ! 3)" "is_digit (s ! 4)"
    "is_digit (s ! 6)" "is_digit (s ! 7)" "is_digit (s ! 9)" "is_digit (s ! 10)"
    by (simp_all add: is_time_str_def)
  show "stamp_field s 0 \<le> 99" using d(1,2) [THEN digit_val_le] by (simp add: stamp_field_def)
  show "stamp_field s 3 \<le> 99" using d(3,4) [THEN digit_val_le] by (simp add: stamp_field_def)
  show "stamp_field s 6 \<le> 99" using d(5,6) [THEN digit_val_le] by (simp add: stamp_field_def)
  show "stamp_field s 9 \<le> 99" using d(7,8) [THEN digit_val_le] by (simp add: stamp_field_def)
qed

lemma fl_zero [simp]: "fl 0 = 0"
  by (simp add: fl_def)

lemma fl_one [simp]: "fl 1 = 1"
  using float_of_int_exact [of 1] by (simp add: float_of_int_def)

lemma int_truediv_hundredths:
  assumes "0 \<le> c" "c \<le> 100"
  shows "0 \<le> int_truediv c 100" "int_truediv c 100 \<le> 1"
proof -
  have "fl 0 \<le> fl (of_int c / of_int 100)" using assms by (intro fl_mono) simp
  then show "0 \<le> int_truediv c 100" by (simp add: int_truediv_def)
  have "fl (of_int c / of_int 100) \<le> fl 1" using assms by (intro fl_mono) simp
  then show "int_truediv c 100 \<le> 1" by (simp add: int_truediv_def)
qed

lemma int_truediv_mono: "a \<le> b \<Longrightarrow> int_truediv a 100 \<le> int_truediv b 100"
  unfolding int_truediv_def by (intro fl_mono) (simp add: divide_right_mono)

text \<open>The float of a time is monotone in the time written.\<close>

lemma time_value_mono:
  assumes n: "0 \<le> n1" "n1 < 2 ^ 53" "0 \<le> n2" "n2 < 2 ^ 53"
    and c: "0 \<le> c1" "c1 < 100" "0 \<le> c2" "c2 < 100"
    and le: "100 * n1 + c1 \<le> 100 * n2 + c2"
  shows "float_add (float_of_int n1) (int_truediv c1 100)
       \<le> float_add (float_of_int n2) (int_truediv c2 100)"
proof -
  have e1: "float_of_int n1 = of_int n1" using n by (intro float_of_int_exact)
  have e2: "float_of_int n2 = of_int n2" using n by (intro float_of_int_exact)
  have b1: "0 \<le> int_truediv c1 100" "int_truediv c1 100 \<le> 1"
    using c int_truediv_hundredths [of c1] by simp_all
  have b2: "0 \<le> int_truediv c2 100" "int_truediv c2 100 \<le> 1"
    using c int_truediv_hundredths [of c2] by simp_all
  have n12: "n1 \<le> n2" using le c by linarith
  have "rat_of_int n1 + int_truediv c1 100 \<le> rat_of_int n2 + int_truediv c2 100"
  proof (cases "n1 = n2")
    case True
    then have "c1 \<le> c2" using le by simp
    then show ?thesis using True int_truediv_mono by simp
  next
    case False
    then have "n1 + 1 \<le> n2" using n12 by simp
    then have "rat_of_int n1 + 1 \<le> rat_of_int n2" 
      by (metis of_int_1 of_int_add of_int_le_iff)
    then show ?thesis using b1 b2 by linarith
  qed
  then show ?thesis unfolding float_add_def e1 e2 by (rule fl_mono)
qed

lemma stamp_time_mono:
  assumes s: "is_time_str s1" "is_time_str s2"
    and t: "time_to_seconds s1 = Inr x1" "time_to_seconds s2 = Inr x2"
    and le: "stamp_centiseconds s1 \<le> stamp_centiseconds s2"
  shows "x1 \<le> x2"
proof -
  define n1 where "n1 = int (stamp_field s1 0) * 3600 + int (stamp_field s1 3) * 60 + int (stamp_field s1 6)"
  define n2 where "n2 = int (stamp_field s2 0) * 3600 + int (stamp_field s2 3) * 60 + int (stamp_field s2 6)"
  define c1 where "c1 = int (stamp_field s1 9)"
  define c2 where "c2 = int (stamp_field s2 9)"
  have x1: "x1 = float_add (float_of_int n1) (int_truediv c1 100)"
    using time_to_seconds_stamp [OF s(1)] t(1) by (simp add: n1_def c1_def)
  have x2: "x2 = float_add (float_of_int n2) (int_truediv c2 100)"
    using time_to_seconds_stamp [OF s(2)] t(2) by (simp add: n2_def c2_def)
  have n1: "0 \<le> n1" "n1 < 2 ^ 53" using stamp_field_le [OF s(1)] by (simp_all add: n1_def)
  have n2: "0 \<le> n2" "n2 < 2 ^ 53" using stamp_field_le [OF s(2)] by (simp_all add: n2_def)
  have c1: "0 \<le> c1" "c1 < 100" using stamp_field_le [OF s(1)] by (simp_all add: c1_def)
  have c2: "0 \<le> c2" "c2 < 100" using stamp_field_le [OF s(2)] by (simp_all add: c2_def)
  have "int (stamp_centiseconds s1) \<le> int (stamp_centiseconds s2)" using le by simp
  then have "100 * n1 + c1 \<le> 100 * n2 + c2"
    by (simp add: stamp_centiseconds_def n1_def n2_def c1_def c2_def)
  from time_value_mono [OF n1 n2 c1 c2 this] show ?thesis by (simp add: x1 x2)
qed

lemma parsed_segment_from_line:
  assumes "parse_transcript_with_timestamps t = Inr segs" "seg \<in> set segs"
  shows "\<exists>groups. from_line seg groups"
proof -
  from parse_transcript_correct [of t] assms(1)
  have all: "list_all2 from_line segs (List.map_filter match_line (split_char CHR 0x0A (strip t)))"
    by auto
  from assms(2) obtain i where i: "i < length segs" "seg = segs ! i"
    by (auto simp: in_set_conv_nth)
  from list_all2_nthD [OF all i(1)] i(2) show ?thesis by blast
qed

section \<open>Ranges and the fallback chunks\<close>

lemma range_count_step:
  assumes "0 < step" "i < stop"
  shows "(stop - i + step - 1) div step = Suc ((stop - (i + step) + step - 1) div step)"
proof (cases "step \<le> stop - i")
  case True
  define e where "e = stop - i - step"
  have a: "stop - i = e + step" "stop - (i + step) = e" using True by (simp_all add: e_def)
  have "stop - i + step - 1 = (e + step - 1) + step" using assms(1) a by simp
  then have "(stop - i + step - 1) div step = (e + step - 1) div step + 1"
    using assms(1) by (simp only: div_add_self2)
  then show ?thesis by (simp add: a)
next
  case False
  then have z: "stop - (i + step) = 0" by simp
  have "step * 1 \<le> stop - i + step - 1" using assms by simp
  moreover have "stop - i + step - 1 < step * Suc 1" using False assms by simp
  ultimately have "(stop - i + step - 1) div step = 1" by (rule div_nat_eqI)
  moreover have "(step - 1) div step = 0" using assms(1) by simp
  ultimately show ?thesis by (simp add: z)
qed

lemma py_range_eq:
  "0 < step \<Longrightarrow>
   py_range i stop step = map (\<lambda>k. i + k * step) [0..<(stop - i + step - 1) div step]"
proof (induction i stop step rule: py_range.induct)
  case (1 i stop step)
  show ?case
  proof (cases "i < stop")
    case False
    then have "(stop - i + step - 1) div step = 0" using 1(2) by simp
    then show ?thesis using False by (subst py_range.simps) simp
  next
    case True
    define n where "n = (stop - (i + step) + step - 1) div step"
    have ih: "py_range (i + step) stop step = map (\<lambda>k. i + step + k * step) [0..<n]"
      using 1(1) True 1(2) by (simp add: n_def)
    have cnt: "(stop - i + step - 1) div step = Suc n"
      unfolding n_def using 1(2) True by (rule range_count_step)
    have "py_range i stop step = i # py_range (i + step) stop step"
      using True 1(2) by (subst py_range.simps) simp
    also have "\<dots> = i # map (\<lambda>k. i + step + k * step) [0..<n]" by (simp add: ih)
    also have "\<dots> = map (\<lambda>k. i + k * step) [0..<Suc n]"
      by (simp add: upt_conv_Cons map_Suc_upt [symmetric] del: upt_Suc) 
    finally show ?thesis by (simp only: cnt)
  qed
qed

lemma fallback_chunks_eq:
  "fallback_chunks t =
     map (\<lambda>k. take 1000 (drop (2000 * k) t)) [0..<min 5 ((length t + 1999) div 2000)]"
proof -
  have "py_range 0 (length t) 2000 = map (\<lambda>k. k * 2000) [0..<(length t + 1999) div 2000]"
    using py_range_eq [of 2000 0 "length t"] by (simp add: add.commute)
  then have "fallback_chunks t
      = map (\<lambda>k. take 1000 (drop (2000 * k) t)) (take 5 [0..<(length t + 1999) div 2000])"
    by (simp add: fallback_chunks_def slice_def take_map o_def mult.commute)
  also have "take 5 [0..<(length t + 1999) div 2000] = [0..<min 5 ((length t + 1999) div 2000)]"
    by (simp add: take_upt min_def)
  finally show ?thesis .
qed

section \<open>The search over several lectures\<close>

text \<open>The loop of \<open>search_all_lectures_node\<close> appends the results of the lectures in the
  order of \<open>lecture_ids\<close>; the sort puts them into descending order of the score.\<close>

lemma search_all_loop_eq:
  "search_all_loop B state (rs, cs) lectures
     = (rs @ concat (map (\<lambda>l. fst (search_lecture_node B state l)) lectures),
        cs @ concat (map (\<lambda>l. snd (search_lecture_node B state l)) lectures))"
  by (induction lectures arbitrary: rs cs) (auto split: prod.split)

lemma sort_by_relevance_sorted:
  "sorted_wrt (\<lambda>a b. relevance_score b \<le> relevance_score a) (sort_by_relevance xs)"
proof -
  have "sorted (map (\<lambda>r. - relevance_score r) (sort_key (\<lambda>r. - relevance_score r) xs))"
    by (rule sorted_sort_key)
  then show ?thesis by (simp add: sort_by_relevance_def sorted_map)
qed

lemma search_all_results:
  "results (fst (search_all_lectures_node B state))
     = take 20 (sort_by_relevance
         (concat (map (\<lambda>l. fst (search_lecture_node B state l)) (lecture_ids state))))"
proof -
  define pooled where
    "pooled = concat (map (\<lambda>l. fst (search_lecture_node B state l)) (lecture_ids state))"
  have loop: "search_all_loop B state ([], []) (lecture_ids state)
      = (pooled, concat (map (\<lambda>l. snd (search_lecture_node B state l)) (lecture_ids state)))"
    by (simp add: search_all_loop_eq pooled_def)
  have "results (fst (search_all_lectures_node B state))
      = take 20 (if pooled \<noteq> [] \<and> list_ex has_relevance_score pooled
                 then sort_by_relevance pooled else pooled)"
    by (simp add: search_all_lectures_node_def Let_def loop)
  also have "(if pooled \<noteq> [] \<and> list_ex has_relevance_score pooled
                 then sort_by_relevance pooled else pooled) = sort_by_relevance pooled"
  proof (cases pooled)
    case Nil
    then show ?thesis by (simp add: sort_by_relevance_def)
  next
    case (Cons r rs)
    then show ?thesis by (simp add: has_relevance_score_def)
  qed
  finally show ?thesis by (simp only: pooled_def)
qed

section \<open>The chunking loop and the summarisation passes\<close>

text \<open>A break point is an index into a chunk of at most 3500 characters, so the end of a
  chunk lies between \<open>start + 1003\<close> and \<open>start + 3500\<close>, and the next chunk starts at least
  503 characters after \<open>start\<close>.\<close>

lemma rfind_from_le: "rfind_from s sub i \<le> int i"
  by (induction i) auto

lemma rfind_le: "rfind s sub \<le> max (- 1) (int (length s) - int (length sub))"
proof (cases "length s < length sub")
  case True
  then show ?thesis by (simp add: rfind_def)
next
  case False
  then have "rfind s sub = rfind_from s sub (length s - length sub)"
    by (simp add: rfind_def)
  also have "\<dots> \<le> int (length s - length sub)" by (rule rfind_from_le)
  finally have "rfind s sub \<le> int (length s - length sub)" .
  also have "\<dots> = int (length s) - int (length sub)" using False by simp
  finally show ?thesis by simp
qed

lemma break_point_le:
  "max (max (rfind (slice t start (start + 3500)) ''. '')
            (rfind (slice t start (start + 3500)) ''? ''))
       (rfind (slice t start (start + 3500)) ''! '') \<le> 3498"
proof -
  have l: "int (length (slice t start (start + 3500))) \<le> 3500" by (simp add: slice_def)
  have "rfind (slice t start (start + 3500)) sub \<le> 3498" if "length sub = 2" for sub
    using rfind_le [of "slice t start (start + 3500)" sub] l that by simp
  then show ?thesis by simp
qed

lemma chunk_end_bounds:
  "start + 1003 \<le> chunk_end t start \<and> chunk_end t start \<le> start + 3500"
proof -
  define bp where "bp = max (max (rfind (slice t start (start + 3500)) ''. '')
            (rfind (slice t start (start + 3500)) ''? ''))
       (rfind (slice t start (start + 3500)) ''! '')"
  have b: "bp \<le> 3498" unfolding bp_def by (rule break_point_le)
  have e: "chunk_end t start
      = (if int start + 1000 < bp then nat (int start + bp + 2) else start + 3500)"
    by (simp add: chunk_end_def Let_def bp_def)
  show ?thesis
  proof (cases "int start + 1000 < bp")
    case True
    then have "chunk_end t start = nat (int start + bp + 2)" by (simp add: e)
    then show ?thesis using True b by linarith
  next
    case False
    then show ?thesis by (simp add: e)
  qed
qed

lemma split_chunks_length:
  "length (split_chunks t start chunks) \<le> length chunks + (length t - start) div 503 + 1"
proof (induction t start chunks rule: split_chunks.induct)
  case (1 t start chunks)
  show ?case
  proof (cases "start < length t \<and> \<not> length t \<le> start + 3500")
    case False
    then show ?thesis by (subst split_chunks.simps) auto
  next
    case True
    define s' where "s' = chunk_end t start - 500"
    have adv: "start + 503 \<le> s'" using chunk_end_bounds [of start t] unfolding s'_def by linarith
    have ih: "length (split_chunks t s' (chunks @ [slice t start (chunk_end t start)]))
        \<le> length (chunks @ [slice t start (chunk_end t start)]) + (length t - s') div 503 + 1"
      unfolding s'_def using True by (intro "1.IH") simp_all
    have "length t - s' \<le> (length t - start) - 503" using adv by simp
    then have d0: "(length t - s') div 503 \<le> ((length t - start) - 503) div 503"
      by (rule div_le_mono)
    define y where "y = length t - start - 503"
    have x: "length t - start = y + 503" using True by (simp add: y_def)
    have "(y + 503) div 503 = y div 503 + 1" by simp
    then have d: "(length t - s') div 503 + 1 \<le> (length t - start) div 503"
      using d0 by (simp add: x y_def [symmetric])
    have "split_chunks t start chunks
        = split_chunks t s' (chunks @ [slice t start (chunk_end t start)])"
      using True by (subst split_chunks.simps) (simp add: s'_def)
    then show ?thesis using ih d by simp
  qed
qed

lemma invoke_calls: "snd (invoke B p) = [LlmInvoke p]"
  by (simp add: invoke_def split: sum.split)

lemma invoke_all_calls_le: "length (snd (invoke_all B ps)) \<le> length ps"
proof (induction ps)
  case Nil
  then show ?case by simp
next
  case (Cons p ps)
  have "snd (invoke B p) = [LlmInvoke p]" by (rule invoke_calls)
  then show ?case using Cons
    by (cases "invoke B p"; cases "invoke_all B ps") (auto split: sum.split)
qed

lemma invoke_all_Inr:
  "fst (invoke_all B ps) = Inr ss \<Longrightarrow> length ss = length ps \<and> length (snd (invoke_all B ps)) = length ps"
proof (induction ps arbitrary: ss)
  case Nil
  then show ?case by simp
next
  case (Cons p ps)
  have c: "snd (invoke B p) = [LlmInvoke p]" by (rule invoke_calls)
  show ?case
  proof (cases "invoke B p")
    case (Pair r cs)
    show ?thesis
    proof (cases "invoke_all B ps")
      case q: (Pair r' cs')
      show ?thesis using Cons.prems Cons.IH [of "projr r'"] Pair q c
        by (auto split: sum.splits)
    qed
  qed
qed

lemma invoke_succeeds:
  "\<forall>p. \<exists>r. llm_invoke B p = Inr r \<Longrightarrow> \<exists>s. fst (invoke B q) = Inr s"
proof -
  assume a: "\<forall>p. \<exists>r. llm_invoke B p = Inr r"
  then obtain r where "llm_invoke B q = Inr r" by blast
  then show ?thesis by (simp add: invoke_def)
qed

lemma invoke_all_succeeds:
  "\<forall>p. \<exists>r. llm_invoke B p = Inr r \<Longrightarrow> \<exists>ss. fst (invoke_all B ps) = Inr ss"
proof (induction ps)
  case Nil
  then show ?case by simp
next
  case (Cons p ps)
  from Cons.prems obtain s where s: "fst (invoke B p) = Inr s" using invoke_succeeds by blast
  from Cons obtain ss where ss: "fst (invoke_all B ps) = Inr ss" by blast
  show ?case using s ss
    by (cases "invoke B p"; cases "invoke_all B ps") auto
qed

lemma length_chunk_prompts: "length (chunk_prompts chunks) = length chunks"
  by (simp add: chunk_prompts_def)

lemma length_group_prompts: "length (group_prompts summaries) = (length summaries + 2) div 3"
  using py_range_eq [of 3 0 "length summaries"] by (simp add: group_prompts_def)

text \<open>The calls of \<open>generate_chunked_summary\<close>: one for a short transcript; otherwise one for
  every chunk, then either the combining call, or one call for every group of three chunk
  summaries and the final call. An exception of the language model ends the function.\<close>

lemma generate_chunked_calls_le:
  "length (snd (generate_chunked_summary B t))
     \<le> length (split_chunks t 0 []) + (length (split_chunks t 0 []) + 2) div 3 + 1"
proof -
  define n where "n = length (split_chunks t 0 [])"
  have f1: "length (snd (invoke_all B (chunk_prompts (split_chunks t 0 [])))) \<le> n"
    using invoke_all_calls_le [of B "chunk_prompts (split_chunks t 0 [])"]
    by (simp add: length_chunk_prompts n_def)
  have f2: "length ss = n" if "fst (invoke_all B (chunk_prompts (split_chunks t 0 []))) = Inr ss" for ss
    using invoke_all_Inr [OF that] by (simp add: length_chunk_prompts n_def)
  have f3: "length (snd (invoke_all B (group_prompts ss))) \<le> (length ss + 2) div 3" for ss
    using invoke_all_calls_le [of B "group_prompts ss"] by (simp add: length_group_prompts)
  have f4: "snd (invoke B p) = [LlmInvoke p]" for p by (rule invoke_calls)
  show ?thesis
  proof (cases "length t \<le> 4000")
    case True
    then show ?thesis by (simp add: generate_chunked_summary_def f4)
  next
    case False
    obtain r calls where a: "invoke_all B (chunk_prompts (split_chunks t 0 [])) = (r, calls)"
      by (cases "invoke_all B (chunk_prompts (split_chunks t 0 []))") blast
    have c: "length calls \<le> n" using f1 a by simp
    show ?thesis
    proof (cases r)
      case (Inl e)
      then show ?thesis using False a c
        by (simp add: generate_chunked_summary_def n_def [symmetric])
    next
      case (Inr ss)
      have l: "length ss = n" using f2 [of ss] a Inr by simp
      show ?thesis
      proof (cases "length (join [CHR 0x0A, CHR 0x0A] ss) \<le> 4000")
        case True
        obtain r2 c2 where b: "invoke B (combine_prompt (join [CHR 0x0A, CHR 0x0A] ss)) = (r2, c2)"
          by (cases "invoke B (combine_prompt (join [CHR 0x0A, CHR 0x0A] ss))") blast
        have "length c2 = 1" using f4 [of "combine_prompt (join [CHR 0x0A, CHR 0x0A] ss)"] b by simp
        then show ?thesis using False a Inr True b c
          by (simp add: generate_chunked_summary_def Let_def n_def [symmetric])
      next
        case long: False
        obtain r3 c3 where g: "invoke_all B (group_prompts ss) = (r3, c3)"
          by (cases "invoke_all B (group_prompts ss)") blast
        have c3: "length c3 \<le> (n + 2) div 3" using f3 [of ss] g l by simp
        show ?thesis
        proof (cases r3)
          case e: (Inl e)
          then show ?thesis using False a Inr long g c c3
            by (simp add: generate_chunked_summary_def Let_def n_def [symmetric])
        next
          case m: (Inr mids)
          obtain r4 c4 where h: "invoke B (sections_prompt mids) = (r4, c4)"
            by (cases "invoke B (sections_prompt mids)") blast
          have "length c4 = 1" using f4 [of "sections_prompt mids"] h by simp
          then show ?thesis using False a Inr long g m h c c3
            by (simp add: generate_chunked_summary_def Let_def n_def [symmetric])
        qed
      qed
    qed
  qed
qed

lemma generate_chunked_succeeds:
  assumes ok: "\<forall>p. \<exists>r. llm_invoke B p = Inr r"
  shows "(\<exists>s. fst (generate_chunked_summary B t) = Inr s)
    \<and> (length (snd (generate_chunked_summary B t)) = 1
       \<or> length (snd (generate_chunked_summary B t)) = length (split_chunks t 0 []) + 1
       \<or> length (snd (generate_chunked_summary B t))
           = length (split_chunks t 0 []) + (length (split_chunks t 0 []) + 2) div 3 + 1)"
proof -
  define n where "n = length (split_chunks t 0 [])"
  have f4: "snd (invoke B p) = [LlmInvoke p]" for p by (rule invoke_calls)
  have f5: "\<exists>s. fst (invoke B p) = Inr s" for p using ok by (rule invoke_succeeds)
  show ?thesis
  proof (cases "length t \<le> 4000")
    case True
    then show ?thesis using f5 [of "direct_prompt t"] by (simp add: generate_chunked_summary_def f4)
  next
    case False
    obtain ss where a0: "fst (invoke_all B (chunk_prompts (split_chunks t 0 []))) = Inr ss"
      using invoke_all_succeeds [OF ok] by blast
    obtain calls where a: "invoke_all B (chunk_prompts (split_chunks t 0 [])) = (Inr ss, calls)"
      using a0 by (cases "invoke_all B (chunk_prompts (split_chunks t 0 []))") simp
    have l: "length ss = n" and c: "length calls = n"
      using invoke_all_Inr [OF a0] a by (simp_all add: length_chunk_prompts n_def)
    show ?thesis
    proof (cases "length (join [CHR 0x0A, CHR 0x0A] ss) \<le> 4000")
      case True
      obtain s2 where "fst (invoke B (combine_prompt (join [CHR 0x0A, CHR 0x0A] ss))) = Inr s2"
        using f5 by blast
      then obtain c2 where b: "invoke B (combine_prompt (join [CHR 0x0A, CHR 0x0A] ss)) = (Inr s2, c2)"
        by (cases "invoke B (combine_prompt (join [CHR 0x0A, CHR 0x0A] ss))") simp
      have "length c2 = 1" using f4 [of "combine_prompt (join [CHR 0x0A, CHR 0x0A] ss)"] b by simp
      then show ?thesis using False a True b c
        by (simp add: generate_chunked_summary_def Let_def n_def [symmetric])
    next
      case long: False
      obtain mids where g0: "fst (invoke_all B (group_prompts ss)) = Inr mids"
        using invoke_all_succeeds [OF ok] by blast
      obtain c3 where g: "invoke_all B (group_prompts ss) = (Inr mids, c3)"
        using g0 by (cases "invoke_all B (group_prompts ss)") simp
      have c3: "length c3 = (n + 2) div 3"
        using invoke_all_Inr [OF g0] g l by (simp add: length_group_prompts)
      obtain s4 where "fst (invoke B (sections_prompt mids)) = Inr s4" using f5 by blast
      then obtain c4 where h: "invoke B (sections_prompt mids) = (Inr s4, c4)"
        by (cases "invoke B (sections_prompt mids)") simp
      have "length c4 = 1" using f4 [of "sections_prompt mids"] h by simp
      then show ?thesis using False a long g h c c3
        by (simp add: generate_chunked_summary_def Let_def n_def [symmetric])
    qed
  qed
qed

lemma generate_summary_node_calls: "length (snd (generate_summary_node B state)) \<le> 1"
  by (simp add: generate_summary_node_def Let_def split: sum.split)

section \<open>The claims about the timestamp service\<close>

text \<open>
  C1 (round trip \<open>seconds_to_time (time_to_seconds s) = s\<close> for every well-formed stamp).
  The stamp \<open>00:00:00.29\<close> is well formed, \<open>time_to_seconds\<close> gives the float nearest to
  0.29, and \<open>seconds_to_time\<close> truncates the float product \<open>0.29 * 100\<close>, which is
  \<open>28.999999999999996\<close>, to 28: the stamp that comes back is \<open>00:00:00.28\<close>.
\<close>

theorem seconds_to_time_loses_centisecond:
  "is_time_str ''00:00:00.29''
   \<and> time_to_seconds ''00:00:00.29'' = Inr (5224175567749775 / 18014398509481984)
   \<and> seconds_to_time (5224175567749775 / 18014398509481984) = ''00:00:00.28''"
  by code_simp

text \<open>
  C4, as stated over the input lines, fails: the parser strips the transcript before it
  splits it into lines.  The only line of the first transcript below starts with a blank
  and does not match the pattern, yet a segment comes back for it; the only line of the
  second matches (its text is one blank), yet no segment comes back.
\<close>

theorem parse_strips_before_matching_counterexample:
  "match_line '' [00:00:01.00 - 00:00:02.50] Hello'' = None
   \<and> parse_transcript_with_timestamps '' [00:00:01.00 - 00:00:02.50] Hello''
       = Inr [\<lparr>start_time = 1, end_time = 5 / 2, seg_text = ''Hello'',
                start_str = ''00:00:01.00'', end_str = ''00:00:02.50''\<rparr>]
   \<and> match_line ''[00:00:01.00 - 00:00:02.50]  ''
       = Some (''00:00:01.00'', ''00:00:02.50'', '' '')
   \<and> parse_transcript_with_timestamps ''[00:00:01.00 - 00:00:02.50]  '' = Inr []"
  by code_simp

text \<open>
  C4, amended: every line of the \<^emph>\<open>stripped\<close> transcript that matches
  \<open>[HH:MM:SS.cc - HH:MM:SS.cc] text\<close> gives exactly one segment, in the order of the lines, and
  every other line is dropped.  The parser never fails; its segments correspond one to one
  and in order to the matching lines of \<open>strip t\<close> (\<open>List.map_filter match_line\<close> keeps
  the groups of the lines that match), each segment carrying the groups of its line and the
  times of its stamps.  In the transcript of three lines whose middle line is \<open>garbage\<close>
  that line does not match, and the result is the two segments of the other lines.
\<close>

theorem parse_transcript_one_segment_per_matching_line:
  "(\<exists>segs. parse_transcript_with_timestamps t = Inr segs
       \<and> list_all2 from_line segs (List.map_filter match_line (split_char CHR 0x0A (strip t))))
   \<and> match_line ''garbage'' = None
   \<and> parse_transcript_with_timestamps
         (''[00:00:01.00 - 00:00:02.50] Hello'' @ [CHR 0x0A] @ ''garbage'' @ [CHR 0x0A]
            @ ''[00:00:02.50 - 00:00:03.00] World'')
       = Inr [\<lparr>start_time = 1, end_time = 5 / 2, seg_text = ''Hello'',
                start_str = ''00:00:01.00'', end_str = ''00:00:02.50''\<rparr>,
              \<lparr>start_time = 5 / 2, end_time = 3, seg_text = ''World'',
                start_str = ''00:00:02.50'', end_str = ''00:00:03.00''\<rparr>]"
proof (intro conjI)
  show "\<exists>segs. parse_transcript_with_timestamps t = Inr segs
       \<and> list_all2 from_line segs (List.map_filter match_line (split_char CHR 0x0A (strip t)))"
    by (rule parse_transcript_correct)
  show "match_line ''garbage'' = None"
    by code_simp
  show "parse_transcript_with_timestamps
         (''[00:00:01.00 - 00:00:02.50] Hello'' @ [CHR 0x0A] @ ''garbage'' @ [CHR 0x0A]
            @ ''[00:00:02.50 - 00:00:03.00] World'')
       = Inr [\<lparr>start_time = 1, end_time = 5 / 2, seg_text = ''Hello'',
                start_str = ''00:00:01.00'', end_str = ''00:00:02.50''\<rparr>,
              \<lparr>start_time = 5 / 2, end_time = 3, seg_text = ''World'',
                start_str = ''00:00:02.50'', end_str = ''00:00:03.00''\<rparr>]"
    by code_simp
qed

text \<open>
  C8, as stated (every parsed segment has \<open>start_time \<le> end_time\<close>), fails: the parser
  converts the two stamps of a line and does not compare them.  A line whose first stamp
  is the later one gives a segment that starts at 5 and ends at 1.
\<close>

theorem parse_keeps_reversed_stamps_counterexample:
  "parse_transcript_with_timestamps ''[00:00:05.00 - 00:00:01.00] x''
     = Inr [\<lparr>start_time = 5, end_time = 1, seg_text = ''x'',
              start_str = ''00:00:05.00'', end_str = ''00:00:01.00''\<rparr>]
   \<and> \<not> start_time \<lparr>start_time = 5, end_time = 1, seg_text = ''x'',
              start_str = ''00:00:05.00'', end_str = ''00:00:01.00''\<rparr>
         \<le> end_time \<lparr>start_time = 5, end_time = 1, seg_text = ''x'',
              start_str = ''00:00:05.00'', end_str = ''00:00:01.00''\<rparr>"
  by code_simp

text \<open>
  C8, amended: every segment returned by \<open>parse_transcript_with_timestamps\<close>, for every
  transcript, whose start stamp is not later than its end stamp (the stamps read in
  centiseconds) satisfies \<open>start_time \<le> end_time\<close>: the conversion to floats keeps the
  order of the stamps.
\<close>

theorem parsed_segment_start_le_end:
  assumes "parse_transcript_with_timestamps t = Inr segs"
    and "seg \<in> set segs"
    and "stamp_centiseconds (start_str seg) \<le> stamp_centiseconds (end_str seg)"
  shows "start_time seg \<le> end_time seg"
proof -
  from parsed_segment_from_line [OF assms(1,2)] obtain groups where "from_line seg groups" ..
  then have f: "is_time_str (start_str seg)" "is_time_str (end_str seg)"
    "time_to_seconds (start_str seg) = Inr (start_time seg)"
    "time_to_seconds (end_str seg) = Inr (end_time seg)"
    by (simp_all add: from_line_def)
  from stamp_time_mono [OF f assms(3)] show ?thesis .
qed

text \<open>The amended C8 at the transcript of one line from 1 s to 2.5 s.\<close>

theorem parsed_segment_start_le_end_witness:
  "parse_transcript_with_timestamps ''[00:00:01.00 - 00:00:02.50] Hello''
     = Inr [\<lparr>start_time = 1, end_time = 5 / 2, seg_text = ''Hello'',
              start_str = ''00:00:01.00'', end_str = ''00:00:02.50''\<rparr>]
   \<and> stamp_centiseconds ''00:00:01.00'' \<le> stamp_centiseconds ''00:00:02.50''
   \<and> start_time \<lparr>start_time = 1, end_time = 5 / 2, seg_text = ''Hello'',
              start_str = ''00:00:01.00'', end_str = ''00:00:02.50''\<rparr>
     \<le> end_time \<lparr>start_time = 1, end_time = 5 / 2, seg_text = ''Hello'',
              start_str = ''00:00:01.00'', end_str = ''00:00:02.50''\<rparr>"
proof -
  let ?seg = "\<lparr>start_time = 1, end_time = 5 / 2, seg_text = ''Hello'',
              start_str = ''00:00:01.00'', end_str = ''00:00:02.50''\<rparr>"
  have p: "parse_transcript_with_timestamps ''[00:00:01.00 - 00:00:02.50] Hello'' = Inr [?seg]"
    by code_simp
  have m: "?seg \<in> set [?seg]" by simp
  have c: "stamp_centiseconds (start_str ?seg) \<le> stamp_centiseconds (end_str ?seg)"
    by code_simp
  from parsed_segment_start_le_end [OF p m c] have "start_time ?seg \<le> end_time ?seg" .
  with p c show ?thesis by simp
qed

text \<open>
  C9 (the parser accepts the lines that \<open>transcribe\<close> writes).  \<open>transcribe\<close> writes the
  start and end of a segment as seconds with two decimals, \<open>[0.00 - 2.50]  Hello\<close> for the
  segment from 0.0 to 2.5, and the parser only matches stamps \<open>HH:MM:SS.cc\<close>: from the
  transcript of that segment it returns no segment at all.
\<close>

theorem transcribe_output_is_not_parsed:
  "transcribe [\<lparr>seg_start = 0, seg_end = 5 / 2, whisper_text = '' Hello''\<rparr>]
     = ''[0.00 - 2.50]  Hello''
   \<and> parse_transcript_with_timestamps ''[0.00 - 2.50]  Hello'' = Inr []"
  by code_simp

section \<open>The claims about the workflows\<close>

text \<open>
  C7 (\<open>consolidate_answer_node\<close> with no results).  On a state whose results are empty the
  stage sets the consolidated answer to the fixed message and makes no backend call; on
  any state, its backend calls are none when the results are empty and the one call of the
  language model, with the prompt built from the first ten results, otherwise.
\<close>

theorem consolidate_answer_short_circuit:
  "consolidate_answer_node B (state\<lparr>results := []\<rparr>)
     = (state\<lparr>results := [],
              consolidated_answer := Some ''No relevant information found across the lectures.''\<rparr>, [])
   \<and> snd (consolidate_answer_node B state)
     = (if results state = [] then []
        else [LlmInvoke (consolidate_prompt (query state)
                (join [CHR 0x0A, CHR 0x0A] (map result_line (take 10 (results state)))))])"
  by (simp add: consolidate_answer_node_def Let_def split: sum.split)

text \<open>
  The loop of \<open>search_lecture_node\<close> appends one result for every document, matched or
  not.
\<close>

lemma search_results_loop_length:
  "length (search_results_loop lecture segments acc docs) = length acc + length docs"
  by (induction docs arbitrary: acc) (auto split: option.split)

text \<open>
  C2 (one citation per retrieved chunk, the placeholder when no segment matches).  The
  loop of \<open>extract_sources_node\<close> and \<open>ask_question\<close> has no branch for a chunk that
  matches no segment.  For the two chunks of \<open>two_chunk_state\<close>, the second of which is in
  no line of the transcript, \<open>extract_sources_node\<close> returns one citation, whatever the
  backends are.
\<close>

theorem extract_sources_drops_unmatched_chunk:
  "length (context_chunks two_chunk_state) = 2
   \<and> sources (fst (extract_sources_node B two_chunk_state))
       = [\<lparr>start_time = 1, end_time = 5 / 2, seg_text = ''Hello world'',
            start_str = ''00:00:01.00'', end_str = ''00:00:02.50'',
            video_timestamp = ''1s''\<rparr>]"
proof -
  have p: "parse_transcript_with_timestamps example_transcript
      = Inr [\<lparr>start_time = 1, end_time = 5 / 2, seg_text = ''Hello world'',
               start_str = ''00:00:01.00'', end_str = ''00:00:02.50''\<rparr>,
             \<lparr>start_time = 5 / 2, end_time = 4, seg_text = ''Second part'',
               start_str = ''00:00:02.50'', end_str = ''00:00:04.00''\<rparr>]"
    by code_simp
  have l: "extract_sources_loop
       [\<lparr>start_time = 1, end_time = 5 / 2, seg_text = ''Hello world'',
               start_str = ''00:00:01.00'', end_str = ''00:00:02.50''\<rparr>,
             \<lparr>start_time = 5 / 2, end_time = 4, seg_text = ''Second part'',
               start_str = ''00:00:02.50'', end_str = ''00:00:04.00''\<rparr>]
       [] [''Hello world'', ''nowhere in the lecture'']
     = [\<lparr>start_time = 1, end_time = 5 / 2, seg_text = ''Hello world'',
            start_str = ''00:00:01.00'', end_str = ''00:00:02.50'',
            video_timestamp = ''1s''\<rparr>]"
    by code_simp
  have t: "transcript two_chunk_state = Some example_transcript"
    "context_chunks two_chunk_state = [''Hello world'', ''nowhere in the lecture'']"
    by (simp_all add: two_chunk_state_def)
  have ne: "example_transcript \<noteq> []" by (simp add: example_transcript_def)
  show ?thesis
    by (simp add: extract_sources_node_def t is_truthy_def ne p l del: extract_sources_loop.simps)
qed

text \<open>
  C3, as stated (once \<open>error\<close> is set, every later stage passes the state through unchanged
  and calls no backend), fails: no stage tests \<open>error\<close>.  After \<open>load_transcript_node\<close>
  has found no transcript and set \<open>error\<close>, \<open>retrieve_relevant_chunks\<close> still asks the
  vector store for the collection, and \<open>generate_answer_node\<close> still calls the language
  model and sets \<open>answer\<close>.
\<close>

theorem later_stages_ignore_error_counterexample:
  "load_transcript_node example_backend (initial_qa_state ''L9'' ''What?'')
     = (failed_load_state, [LoadTranscript ''L9''])
   \<and> error failed_load_state = Some ''Transcript not found for lecture L9''
   \<and> snd (retrieve_relevant_chunks example_backend failed_load_state)
       = [GetCollectionInfo ''lecture_L9'']
   \<and> answer failed_load_state = None
   \<and> answer (fst (generate_answer_node example_backend failed_load_state)) = Some ''An answer.''
   \<and> snd (generate_answer_node example_backend failed_load_state)
       = [LlmInvoke (qa_prompt [] ''What?'')]"
  by code_simp

text \<open>
  C3, amended: once \<open>error\<close> is set it stays set through every later stage (a stage may
  replace the message); \<open>retrieve_relevant_chunks\<close> leaves \<open>answer\<close> and \<open>sources\<close> as they
  are, \<open>generate_answer_node\<close> leaves \<open>sources\<close> as they are, \<open>extract_sources_node\<close>
  leaves \<open>answer\<close> as it is, and when the transcript is absent, as it is after a failed load,
  \<open>extract_sources_node\<close> returns the state unchanged and calls no backend.
\<close>

theorem error_stays_set:
  assumes "error state \<noteq> None"
  shows "error (fst (retrieve_relevant_chunks B state)) \<noteq> None
     \<and> error (fst (generate_answer_node B state)) \<noteq> None
     \<and> error (fst (extract_sources_node B state)) \<noteq> None
     \<and> answer (fst (retrieve_relevant_chunks B state)) = answer state
     \<and> sources (fst (retrieve_relevant_chunks B state)) = sources state
     \<and> sources (fst (generate_answer_node B state)) = sources state
     \<and> answer (fst (extract_sources_node B state)) = answer state
     \<and> (\<not> is_truthy (transcript state) \<longrightarrow> extract_sources_node B state = (state, []))"
proof (intro conjI)
  show "error (fst (retrieve_relevant_chunks B state)) \<noteq> None"
    using assms by (simp add: retrieve_relevant_chunks_def Let_def split: option.split sum.split)
  show "error (fst (generate_answer_node B state)) \<noteq> None"
    using assms by (simp add: generate_answer_node_def Let_def split: sum.split)
  show "error (fst (extract_sources_node B state)) \<noteq> None"
    using assms by (simp add: extract_sources_node_def split: sum.split)
  show "answer (fst (retrieve_relevant_chunks B state)) = answer state"
    by (simp add: retrieve_relevant_chunks_def Let_def split: option.split sum.split)
  show "sources (fst (retrieve_relevant_chunks B state)) = sources state"
    by (simp add: retrieve_relevant_chunks_def Let_def split: option.split sum.split)
  show "sources (fst (generate_answer_node B state)) = sources state"
    by (simp add: generate_answer_node_def Let_def split: sum.split)
  show "answer (fst (extract_sources_node B state)) = answer state"
    by (simp add: extract_sources_node_def split: sum.split)
  show "\<not> is_truthy (transcript state) \<longrightarrow> extract_sources_node B state = (state, [])"
    by (simp add: extract_sources_node_def)
qed

text \<open>The amended C3 at the state that the failed load leaves.\<close>

theorem error_stays_set_witness:
  "error failed_load_state \<noteq> None
   \<and> error (fst (retrieve_relevant_chunks example_backend failed_load_state)) \<noteq> None
   \<and> error (fst (generate_answer_node example_backend failed_load_state)) \<noteq> None
   \<and> error (fst (extract_sources_node example_backend failed_load_state)) \<noteq> None
   \<and> sources (fst (generate_answer_node example_backend failed_load_state)) = sources failed_load_state
   \<and> extract_sources_node example_backend failed_load_state = (failed_load_state, [])"
proof -
  have h: "error failed_load_state \<noteq> None" by (simp add: failed_load_state_def)
  have t: "\<not> is_truthy (transcript failed_load_state)"
    by (simp add: failed_load_state_def is_truthy_def)
  from error_stays_set [OF h, of example_backend] t h show ?thesis by simp
qed

text \<open>
  C6, as stated (with no vector collection the retrieval stage slices the transcript and
  sets no error), fails for an empty question: the stage tests the question before it
  looks for the collection, sets \<open>error\<close> and leaves the chunks as they are.
\<close>

theorem retrieval_needs_question_counterexample:
  "get_collection_info example_backend (''lecture_'' @ lecture_id (two_chunk_state\<lparr>lecture_id := ''L9'', question := Some []\<rparr>)) = None
   \<and> retrieve_relevant_chunks example_backend (two_chunk_state\<lparr>lecture_id := ''L9'', question := Some []\<rparr>)
       = (two_chunk_state\<lparr>lecture_id := ''L9'', question := Some [],
                           error := Some ''No question provided''\<rparr>, [])"
  by code_simp

text \<open>
  C6, amended: in the retrieval stage of the question-answering workflow, when the question
  is not empty and the lecture's vector collection does not exist, the stage only asks for
  the collection and sets no error; when the transcript is present the context chunks become
  the windows \<open>transcript[2000 k : 2000 k + 1000]\<close> for \<open>k = 0, 1, \<dots>\<close> (size 1000 at stride
  2000), at most 5 of them, and when the transcript is absent the state is returned as it
  is.
\<close>

theorem retrieval_fallback_slices:
  assumes "get_collection_info B (''lecture_'' @ lecture_id state) = None"
    and "is_truthy (question state)"
  shows "snd (retrieve_relevant_chunks B state) = [GetCollectionInfo (''lecture_'' @ lecture_id state)]
     \<and> error (fst (retrieve_relevant_chunks B state)) = error state
     \<and> (\<forall>t. transcript state = Some t \<and> t \<noteq> [] \<longrightarrow>
            fst (retrieve_relevant_chunks B state)
              = state\<lparr>context_chunks :=
                        map (\<lambda>k. take 1000 (drop (2000 * k) t))
                          [0..<min 5 ((length t + 1999) div 2000)]\<rparr>)
     \<and> (\<not> is_truthy (transcript state) \<longrightarrow> fst (retrieve_relevant_chunks B state) = state)"
  using assms
  by (simp add: retrieve_relevant_chunks_def Let_def is_truthy_def fallback_chunks_eq
      split: option.split)

text \<open>The amended C6 at a state with the example transcript (one window) and at the state
  of a failed load (no transcript), both for a lecture without collection.\<close>

theorem retrieval_fallback_slices_witness:
  "get_collection_info example_backend (''lecture_'' @ lecture_id (two_chunk_state\<lparr>lecture_id := ''L9''\<rparr>)) = None
   \<and> is_truthy (question (two_chunk_state\<lparr>lecture_id := ''L9''\<rparr>))
   \<and> transcript (two_chunk_state\<lparr>lecture_id := ''L9''\<rparr>) = Some example_transcript
   \<and> example_transcript \<noteq> []
   \<and> retrieve_relevant_chunks example_backend (two_chunk_state\<lparr>lecture_id := ''L9''\<rparr>)
       = (two_chunk_state\<lparr>lecture_id := ''L9'', context_chunks := [example_transcript]\<rparr>,
          [GetCollectionInfo ''lecture_L9''])
   \<and> get_collection_info example_backend (''lecture_'' @ lecture_id failed_load_state) = None
   \<and> is_truthy (question failed_load_state)
   \<and> \<not> is_truthy (transcript failed_load_state)
   \<and> retrieve_relevant_chunks example_backend failed_load_state
       = (failed_load_state, [GetCollectionInfo ''lecture_L9''])"
proof -
  let ?s = "two_chunk_state\<lparr>lecture_id := ''L9''\<rparr>"
  have c: "get_collection_info example_backend (''lecture_'' @ lecture_id ?s) = None"
    by (simp add: example_backend_def two_chunk_state_def)
  have q: "is_truthy (question ?s)" by (simp add: two_chunk_state_def is_truthy_def)
  have t: "transcript ?s = Some example_transcript" by (simp add: two_chunk_state_def)
  have ne: "example_transcript \<noteq> []" by (simp add: example_transcript_def)
  have len: "length example_transcript = 79" by (simp add: example_transcript_def)
  have i: "lecture_id ?s = ''L9''" by simp
  have c': "get_collection_info example_backend (''lecture_'' @ lecture_id failed_load_state) = None"
    by (simp add: example_backend_def failed_load_state_def)
  have q': "is_truthy (question failed_load_state)" by (simp add: failed_load_state_def is_truthy_def)
  have t': "\<not> is_truthy (transcript failed_load_state)" by (simp add: failed_load_state_def is_truthy_def)
  have i': "lecture_id failed_load_state = ''L9''" by (simp add: failed_load_state_def)
  from retrieval_fallback_slices [OF c q] t ne
  have "snd (retrieve_relevant_chunks example_backend ?s) = [GetCollectionInfo (''lecture_'' @ lecture_id ?s)]"
    "fst (retrieve_relevant_chunks example_backend ?s)
      = ?s\<lparr>context_chunks := map (\<lambda>k. take 1000 (drop (2000 * k) example_transcript))
                          [0..<min 5 ((length example_transcript + 1999) div 2000)]\<rparr>"
    by blast+
  then have a: "retrieve_relevant_chunks example_backend ?s
       = (?s\<lparr>context_chunks := [example_transcript]\<rparr>, [GetCollectionInfo ''lecture_L9''])"
    by (simp add: len i prod_eq_iff)
  from retrieval_fallback_slices [OF c' q'] t'
  have "snd (retrieve_relevant_chunks example_backend failed_load_state)
          = [GetCollectionInfo (''lecture_'' @ lecture_id failed_load_state)]"
    "fst (retrieve_relevant_chunks example_backend failed_load_state) = failed_load_state"
    by blast+
  then have b: "retrieve_relevant_chunks example_backend failed_load_state
       = (failed_load_state, [GetCollectionInfo ''lecture_L9''])"
    by (simp add: i' prod_eq_iff)
  from c q t ne a c' q' t' b show ?thesis by simp
qed

text \<open>
  Claim C5. \<open>search_all_lectures_node\<close> stores the first 20 of the pooled results of
  \<open>search_lecture_node\<close> over \<open>lecture_ids\<close>, sorted by score: the sort keeps every pooled
  result, the field \<open>error\<close> of the state is not written, the stored list has at most 20
  results and is in descending order of \<open>relevance_score\<close>, so a result with a higher score
  (0.9) stands before every result with a lower one (0.7); a lecture whose collection
  does not exist contributes no result. Every result is built with a score, so the
  condition of the sort holds whenever there is a result.
\<close>

theorem search_all_lectures_ranked:
  "results (fst (search_all_lectures_node B state))
     = take 20 (sort_by_relevance
         (concat (map (\<lambda>l. fst (search_lecture_node B state l)) (lecture_ids state))))
   \<and> set (sort_by_relevance
         (concat (map (\<lambda>l. fst (search_lecture_node B state l)) (lecture_ids state))))
       = set (concat (map (\<lambda>l. fst (search_lecture_node B state l)) (lecture_ids state)))
   \<and> length (sort_by_relevance
         (concat (map (\<lambda>l. fst (search_lecture_node B state l)) (lecture_ids state))))
       = length (concat (map (\<lambda>l. fst (search_lecture_node B state l)) (lecture_ids state)))
   \<and> error_multi (fst (search_all_lectures_node B state)) = error_multi state
   \<and> length (results (fst (search_all_lectures_node B state))) \<le> 20
   \<and> sorted_wrt (\<lambda>a b. relevance_score b \<le> relevance_score a)
        (results (fst (search_all_lectures_node B state)))
   \<and> (\<forall>i j. i < length (results (fst (search_all_lectures_node B state)))
          \<and> j < length (results (fst (search_all_lectures_node B state)))
          \<and> relevance_score (results (fst (search_all_lectures_node B state)) ! j)
              < relevance_score (results (fst (search_all_lectures_node B state)) ! i)
          \<longrightarrow> i < j)
   \<and> (\<forall>l. get_collection_info B (''lecture_'' @ l) = None
          \<longrightarrow> fst (search_lecture_node B state l) = [])"
proof -
  let ?rs = "results (fst (search_all_lectures_node B state))"
  have r: "?rs = take 20 (sort_by_relevance
         (concat (map (\<lambda>l. fst (search_lecture_node B state l)) (lecture_ids state))))"
    by (rule search_all_results)
  have p1: "set (sort_by_relevance
         (concat (map (\<lambda>l. fst (search_lecture_node B state l)) (lecture_ids state))))
       = set (concat (map (\<lambda>l. fst (search_lecture_node B state l)) (lecture_ids state)))"
    by (simp add: sort_by_relevance_def)
  have p2: "length (sort_by_relevance
         (concat (map (\<lambda>l. fst (search_lecture_node B state l)) (lecture_ids state))))
       = length (concat (map (\<lambda>l. fst (search_lecture_node B state l)) (lecture_ids state)))"
    by (simp add: sort_by_relevance_def)
  have e: "error_multi (fst (search_all_lectures_node B state)) = error_multi state"
    by (simp add: search_all_lectures_node_def Let_def split: prod.split)
  have l: "length ?rs \<le> 20" by (simp add: r)
  have s: "sorted_wrt (\<lambda>a b. relevance_score b \<le> relevance_score a) ?rs"
    unfolding r by (intro sorted_wrt_take sort_by_relevance_sorted)
  have o: "\<forall>i j. i < length ?rs \<and> j < length ?rs
          \<and> relevance_score (?rs ! j) < relevance_score (?rs ! i) \<longrightarrow> i < j"
  proof (intro allI impI)
    fix i j
    assume a: "i < length ?rs \<and> j < length ?rs
          \<and> relevance_score (?rs ! j) < relevance_score (?rs ! i)"
    show "i < j"
    proof (rule ccontr)
      assume "\<not> i < j"
      then consider "i = j" | "j < i" by linarith
      then show False
      proof cases
        case 1
        then show ?thesis using a by simp
      next
        case 2
        with s a have "relevance_score (?rs ! i) \<le> relevance_score (?rs ! j)"
          by (simp add: sorted_wrt_iff_nth_less)
        then show ?thesis using a by simp
      qed
    qed
  qed
  have k: "\<forall>l. get_collection_info B (''lecture_'' @ l) = None
          \<longrightarrow> fst (search_lecture_node B state l) = []"
    by (simp add: search_lecture_node_def Let_def)
  from r p1 p2 e l s o k show ?thesis by blast
qed

text \<open>Lectures \<open>L1\<close> (score 0.7), \<open>L3\<close> (no collection) and \<open>L2\<close> (score 0.9, twice): the
  two results of \<open>L2\<close> come first, in their order, then the result of \<open>L1\<close>.\<close>

theorem search_all_lectures_ranked_witness:
  "get_collection_info example_backend (''lecture_'' @ ''L3'') = None
   \<and> fst (search_lecture_node example_backend three_lecture_state ''L3'') = []
   \<and> map (\<lambda>r. (result_lecture_id r, relevance_score r, video_timestamp r))
        (results (fst (search_all_lectures_node example_backend three_lecture_state)))
       = [(''L2'', 8106479329266893 / 9007199254740992, ''2s''),
          (''L2'', 8106479329266893 / 9007199254740992, ''0s''),
          (''L1'', 3152519739159347 / 4503599627370496, ''1s'')]
   \<and> 2 < length (results (fst (search_all_lectures_node example_backend three_lecture_state)))
   \<and> relevance_score (results (fst (search_all_lectures_node example_backend three_lecture_state)) ! 2)
       < relevance_score (results (fst (search_all_lectures_node example_backend three_lecture_state)) ! 0)
   \<and> (0::nat) < 2"
proof -
  let ?rs = "results (fst (search_all_lectures_node example_backend three_lecture_state))"
  have c: "get_collection_info example_backend (''lecture_'' @ ''L3'') = None"
    by (simp add: example_backend_def)
  have m: "map (\<lambda>r. (result_lecture_id r, relevance_score r, video_timestamp r)) ?rs
       = [(''L2'', 8106479329266893 / 9007199254740992, ''2s''),
          (''L2'', 8106479329266893 / 9007199254740992, ''0s''),
          (''L1'', 3152519739159347 / 4503599627370496, ''1s'')]"
    by code_simp
  from m have "length (map (\<lambda>r. (result_lecture_id r, relevance_score r, video_timestamp r)) ?rs) = 3"
    by (simp only: list.size)
  then have len3: "length ?rs = 3" by (simp only: length_map)
  then have len: "2 < length ?rs" and len0: "0 < length ?rs" by simp_all
  from m have
    "map (\<lambda>r. (result_lecture_id r, relevance_score r, video_timestamp r)) ?rs ! 0
       = (''L2'', 8106479329266893 / 9007199254740992, ''2s'')"
    "map (\<lambda>r. (result_lecture_id r, relevance_score r, video_timestamp r)) ?rs ! 2
       = (''L1'', 3152519739159347 / 4503599627370496, ''1s'')"
    by (simp_all only: nth_Cons_0 nth_Cons_numeral nth_Cons_Suc numeral_2_eq_2)
  then have s0: "relevance_score (?rs ! 0) = 8106479329266893 / 9007199254740992"
    and s2: "relevance_score (?rs ! 2) = 3152519739159347 / 4503599627370496"
    using len len0 by (simp_all only: nth_map prod.inject)
  have sc: "relevance_score (?rs ! 2) < relevance_score (?rs ! 0)"
    unfolding s0 s2 by simp
  note t = search_all_lectures_ranked [of example_backend three_lecture_state]
  from t have k: "\<forall>l. get_collection_info example_backend (''lecture_'' @ l) = None
        \<longrightarrow> fst (search_lecture_node example_backend three_lecture_state l) = []"
    by blast
  from t have o: "\<forall>i j. i < length ?rs \<and> j < length ?rs
        \<and> relevance_score (?rs ! j) < relevance_score (?rs ! i) \<longrightarrow> i < j"
    by blast
  from k c have k3: "fst (search_lecture_node example_backend three_lecture_state ''L3'') = []"
    by blast
  from o len0 len sc have lt: "(0::nat) < 2" by blast
  from c k3 m len sc lt show ?thesis by (intro conjI)
qed

text \<open>
  Claim C10. The chunking loop of \<open>generate_chunked_summary\<close> moves its start forward by at
  least 503 characters in every iteration (and a chunk has at most 3500 characters), so
  it ends with at most \<open>len(transcript) div 503 + 1\<close> chunks. The function asks the language
  model once for every chunk, once for every group of three chunk summaries, and once
  for the final summary, and for nothing else: with \<open>n\<close> chunks it makes at most
  \<open>n + (n + 2) div 3 + 1\<close> calls, and exactly one for a transcript of at most 4000
  characters. When the language model answers every prompt the function returns a summary
  after 1, \<open>n + 1\<close> or \<open>n + (n + 2) div 3 + 1\<close> calls. The stage \<open>generate_summary_node\<close>
  makes at most one call.
\<close>

theorem summary_passes_bounded:
  "start + 503 \<le> chunk_end t start - 500
   \<and> chunk_end t start \<le> start + 3500
   \<and> length (split_chunks t 0 []) \<le> length t div 503 + 1
   \<and> length (chunk_prompts (split_chunks t 0 [])) = length (split_chunks t 0 [])
   \<and> length (group_prompts summaries) = (length summaries + 2) div 3
   \<and> length (snd (generate_chunked_summary B t))
        \<le> length (split_chunks t 0 []) + (length (split_chunks t 0 []) + 2) div 3 + 1
   \<and> (length t \<le> 4000
        \<longrightarrow> snd (generate_chunked_summary B t) = [LlmInvoke (direct_prompt t)])
   \<and> ((\<forall>p. \<exists>r. llm_invoke B p = Inr r)
        \<longrightarrow> (\<exists>s. fst (generate_chunked_summary B t) = Inr s)
          \<and> (length (snd (generate_chunked_summary B t)) = 1
             \<or> length (snd (generate_chunked_summary B t)) = length (split_chunks t 0 []) + 1
             \<or> length (snd (generate_chunked_summary B t))
                 = length (split_chunks t 0 []) + (length (split_chunks t 0 []) + 2) div 3 + 1))
   \<and> length (snd (generate_summary_node B state)) \<le> 1"
proof -
  have a: "start + 503 \<le> chunk_end t start - 500" "chunk_end t start \<le> start + 3500"
    using chunk_end_bounds [of start t] by linarith+
  have b: "length (split_chunks t 0 []) \<le> length t div 503 + 1"
    using split_chunks_length [of t 0 "[]"] by simp
  have d: "length t \<le> 4000
        \<longrightarrow> snd (generate_chunked_summary B t) = [LlmInvoke (direct_prompt t)]"
    by (simp add: generate_chunked_summary_def invoke_calls)
  note c = length_chunk_prompts [of "split_chunks t 0 []"] length_group_prompts [of summaries]
    generate_chunked_calls_le [of B t] generate_summary_node_calls [of B state]
  from a b c d generate_chunked_succeeds [of B t] show ?thesis by blast
qed

text \<open>The example transcript is summarised with one call; a transcript of 50000 characters
  has at most 100 chunks and is summarised with at most 135 calls.\<close>

theorem summary_passes_bounded_witness:
  "length example_transcript \<le> 4000
   \<and> snd (generate_chunked_summary example_backend example_transcript)
       = [LlmInvoke (direct_prompt example_transcript)]
   \<and> (\<forall>p. \<exists>r. llm_invoke example_backend p = Inr r)
   \<and> (\<exists>s. fst (generate_chunked_summary example_backend (replicate 50000 CHR ''a'')) = Inr s)
   \<and> length (split_chunks (replicate 50000 CHR ''a'') 0 []) \<le> 100
   \<and> length (snd (generate_chunked_summary example_backend (replicate 50000 CHR ''a''))) \<le> 135"
proof -
  let ?t = "replicate 50000 CHR ''a''"
  have s: "length example_transcript \<le> 4000" by (simp add: example_transcript_def)
  have ok: "\<forall>p. \<exists>r. llm_invoke example_backend p = Inr r" by (simp add: example_backend_def)
  note t1 = summary_passes_bounded [of 0 example_transcript "[]" example_backend]
  from t1 s have d: "snd (generate_chunked_summary example_backend example_transcript)
       = [LlmInvoke (direct_prompt example_transcript)]" by blast
  note t2 = summary_passes_bounded [of 0 ?t "[]" example_backend]
  from t2 ok have e: "\<exists>s. fst (generate_chunked_summary example_backend ?t) = Inr s" by blast
  from t2 have n: "length (split_chunks ?t 0 []) \<le> length ?t div 503 + 1" by blast
  then have n': "length (split_chunks ?t 0 []) \<le> 100" by simp
  from t2 have "length (snd (generate_chunked_summary example_backend ?t))
        \<le> length (split_chunks ?t 0 []) + (length (split_chunks ?t 0 []) + 2) div 3 + 1" by blast
  with n' have c: "length (snd (generate_chunked_summary example_backend ?t)) \<le> 135" by linarith
  from s d ok e n' c show ?thesis by (intro conjI)
qed

end
